theory Spec2Isabelle
  imports Complex_Main "HOL-Library.AList" "HOL-Library.Sublist"
begin

section \<open>The node-side agent of spot_agent_production_v2_final.py\<close>

text \<open>
  The agent talks to three outside parties: the EC2 and pricing APIs (boto3), the central
  server (requests) and the wall clock (\<^verbatim>\<open>datetime.utcnow()\<close>).  Their behaviour is not
  part of the program, so the model takes it as a parameter: a record \<open>'w env\<close> of
  primitive operations over an abstract world \<open>'w\<close>.  Every primitive receives the world,
  returns its answer and the next world.  A primitive that raises in Python returns
  \<open>None\<close> (or \<open>False\<close> where the source only needs to know that it raised); each
  \<^verbatim>\<open>try/except Exception\<close> of the source is then a case distinction of the model.

  Prices are Python floats; the model uses \<open>real\<close> and writes the literal \<^verbatim>\<open>0.1\<close> as
  \<open>1/10\<close>.  Timestamps are \<^verbatim>\<open>datetime\<close> values, modelled as the number of microseconds
  since the epoch.  Answers decoded from JSON have the shape that the source reads
  (a pending command has its \<^verbatim>\<open>id\<close>, \<^verbatim>\<open>instance_id\<close> and \<^verbatim>\<open>target_mode\<close>); log
  output is left out.  The functions are sequential: each one is a call that runs to
  its end; the interleaving of several callers of \<^verbatim>\<open>execute_switch\<close> is modelled
  separately, by the steps of its entry protocol.
\<close>

type_synonym timestamp = int
type_synonym price = real

subsection \<open>Data\<close>

text \<open>\<^verbatim>\<open>AgentConfig\<close> (lines 38-57).\<close>

record AgentConfig =
  central_server_url :: string
  client_token :: string
  region :: string
  instance_id :: string
  instance_type :: string
  availability_zone :: string
  ami_id :: string
  agent_id :: string
  hostname :: string
  agent_version :: string
  spot_price_interval :: int
  ondemand_price_interval :: int
  heartbeat_interval :: int
  command_check_interval :: int
  enabled :: bool
  auto_switch_enabled :: bool
  auto_terminate_enabled :: bool
  is_ec2 :: bool

text \<open>
  One element of \<^verbatim>\<open>NetworkInterfaces\<close> of a described instance.  The source reads only
  \<^verbatim>\<open>ni.get('Association', {}).get('PublicIp')\<close>, which is \<open>None\<close> when either key is
  missing.
\<close>

record network_interface =
  ni_public_ip :: "string option"

text \<open>
  One instance of a \<^verbatim>\<open>describe_instances\<close> response.  The keys that
  \<^verbatim>\<open>get_instance_details\<close> reads with \<^verbatim>\<open>[...]\<close> are fields; the keys it reads with
  \<^verbatim>\<open>.get\<close> are optional fields.
\<close>

record raw_instance =
  raw_InstanceId :: string
  raw_InstanceType :: string
  raw_StateName :: string
  raw_InstanceLifecycle :: "string option"
  raw_AvailabilityZone :: string
  raw_SubnetId :: "string option"
  raw_SecurityGroups :: "string list"
  raw_KeyName :: "string option"
  raw_IamInstanceProfileArn :: "string option"
  raw_Tags :: "(string \<times> string) list"
  raw_NetworkInterfaces :: "network_interface list"
  raw_BlockDeviceMappings :: "string list"

text \<open>The dictionary that \<^verbatim>\<open>get_instance_details\<close> returns (lines 149-162).\<close>

record instance_details =
  det_instance_id :: string
  det_instance_type :: string
  det_state :: string
  det_lifecycle :: string
  det_az :: string
  det_subnet_id :: "string option"
  det_security_groups :: "string list"
  det_key_name :: "string option"
  det_iam_instance_profile :: "string option"
  det_tags :: "(string \<times> string) list"
  det_network_interfaces :: "network_interface list"
  det_block_device_mappings :: "string list"

text \<open>
  One element of \<^verbatim>\<open>SpotPriceHistory\<close>.  \<open>sph_SpotPrice\<close> is \<open>None\<close> when
  \<^verbatim>\<open>float(item['SpotPrice'])\<close> raises.
\<close>

record spot_price_item =
  sph_AvailabilityZone :: string
  sph_SpotPrice :: "price option"

text \<open>One dictionary of the list that \<^verbatim>\<open>get_spot_prices\<close> returns (lines 317-321).\<close>

record pool =
  pool_az :: string
  pool_pool_id :: string
  pool_price :: price

text \<open>The \<^verbatim>\<open>launch_config\<close> dictionary of \<^verbatim>\<open>execute_switch\<close> (lines 792-802).\<close>

record launch_config =
  lc_ami_id :: string
  lc_instance_type :: string
  lc_key_name :: "string option"
  lc_security_groups :: "string list"
  lc_subnet_id :: "string option"
  lc_iam_instance_profile :: "string option"
  lc_tags :: "(string \<times> string) list"
  lc_network_interfaces :: "network_interface list"
  lc_old_instance_id :: string

text \<open>The \<^verbatim>\<open>NetworkInterfaces\<close> entry of a launch request (lines 249-254).\<close>

record network_spec =
  ns_DeviceIndex :: nat
  ns_SubnetId :: "string option"
  ns_Groups :: "string list"
  ns_AssociatePublicIpAddress :: bool

text \<open>\<^verbatim>\<open>InstanceMarketOptions\<close> of a launch request (lines 261-267).\<close>

record market_options =
  mo_MarketType :: string
  mo_SpotInstanceType :: string
  mo_InstanceInterruptionBehavior :: string

text \<open>
  The keyword arguments of \<^verbatim>\<open>run_instances\<close> (lines 220-267).  A key that the source
  adds only under a condition is an optional field.
\<close>

record launch_params =
  lp_ImageId :: string
  lp_InstanceType :: string
  lp_MinCount :: nat
  lp_MaxCount :: nat
  lp_Tags :: "(string \<times> string) list"
  lp_KeyName :: "string option"
  lp_IamInstanceProfileArn :: "string option"
  lp_NetworkInterfaces :: "network_spec list option"
  lp_SecurityGroupIds :: "string list option"
  lp_SubnetId :: "string option option"
  lp_InstanceMarketOptions :: "market_options option"

text \<open>\<^verbatim>\<open>old_instance\<close> and \<^verbatim>\<open>new_instance\<close> of a switch report (lines 874-891).\<close>

record instance_snapshot =
  snap_instance_id :: string
  snap_mode :: "string option"
  snap_pool_id :: "string option"
  snap_instance_type :: string
  snap_region :: string
  snap_az :: string
  snap_ami_id :: string

text \<open>
  The body of a switch report (lines 873-908).  The four timestamps are kept as
  \<^verbatim>\<open>datetime\<close> values; the source sends their \<^verbatim>\<open>isoformat()\<close>.
\<close>

record migration_record =
  mr_old_instance :: instance_snapshot
  mr_new_instance :: instance_snapshot
  mr_snapshot_used :: bool
  mr_snapshot_id :: string
  mr_on_demand :: price
  mr_old_spot :: price
  mr_new_spot :: price
  mr_switch_initiated_at :: timestamp
  mr_new_instance_ready_at :: timestamp
  mr_traffic_switched_at :: timestamp
  mr_old_instance_terminated_at :: "timestamp option"
  mr_trigger :: string

text \<open>One element of the pending-commands response (lines 726-744).\<close>

record pending_command =
  cmd_id :: int
  cmd_instance_id :: string
  cmd_target_mode :: string
  cmd_target_pool_id :: "string option"

subsection \<open>The outside world\<close>

text \<open>The requests the agent sends; the model records each one in a trace.\<close>

datatype call =
    DescribeInstances string
  | CreateImage string string
  | WaitImageAvailable string
  | RunInstances launch_params
  | WaitInstanceRunning string
  | TerminateInstances string
  | DescribeSpotPriceHistory string timestamp
  | GetProducts string string
  | GetPendingCommands
  | MarkCommandExecuted int
  | SwitchReport migration_record
  | Sleep nat

record 'w env =
  utcnow :: "'w \<Rightarrow> timestamp \<times> 'w"
  strftime :: "timestamp \<Rightarrow> string"
  isoformat :: "timestamp \<Rightarrow> string"
  time_sleep :: "nat \<Rightarrow> 'w \<Rightarrow> unit \<times> 'w"
  ec2_describe_instances :: "string \<Rightarrow> 'w \<Rightarrow> raw_instance list list option \<times> 'w"
  ec2_create_image :: "string \<Rightarrow> string \<Rightarrow> 'w \<Rightarrow> string option \<times> 'w"
  ec2_wait_image_available :: "string \<Rightarrow> 'w \<Rightarrow> bool \<times> 'w"
  ec2_run_instances :: "launch_params \<Rightarrow> 'w \<Rightarrow> string list option \<times> 'w"
  ec2_wait_instance_running :: "string \<Rightarrow> 'w \<Rightarrow> bool \<times> 'w"
  ec2_terminate_instances :: "string \<Rightarrow> 'w \<Rightarrow> bool \<times> 'w"
  ec2_describe_spot_price_history ::
    "string \<Rightarrow> timestamp \<Rightarrow> 'w \<Rightarrow> spot_price_item list option \<times> 'w"
  pricing_get_products :: "string \<Rightarrow> string \<Rightarrow> 'w \<Rightarrow> price option list option \<times> 'w"
  http_pending_commands :: "'w \<Rightarrow> pending_command list option \<times> 'w"
  http_mark_command_executed :: "int \<Rightarrow> 'w \<Rightarrow> bool \<times> 'w"
  http_switch_report :: "migration_record \<Rightarrow> 'w \<Rightarrow> bool \<times> 'w"

text \<open>The world together with the trace of the requests sent so far.\<close>

record 'w sys =
  world :: 'w
  trace :: "call list"

definition perform :: "call \<Rightarrow> ('w \<Rightarrow> 'r \<times> 'w) \<Rightarrow> 'w sys \<Rightarrow> 'r \<times> 'w sys" where
  "perform c f s =
     (case f (world s) of (r, w') \<Rightarrow> (r, \<lparr>world = w', trace = trace s @ [c]\<rparr>))"

text \<open>Reading the clock is not a request; only the world moves.\<close>

definition now :: "'w env \<Rightarrow> 'w sys \<Rightarrow> timestamp \<times> 'w sys" where
  "now env s = (case utcnow env (world s) of (t, w') \<Rightarrow> (t, s\<lparr>world := w'\<rparr>))"

subsection \<open>\<^verbatim>\<open>AWSResourceManager\<close>\<close>

text \<open>\<^verbatim>\<open>az.replace('-', '')\<close>.\<close>

definition remove_hyphens :: "string \<Rightarrow> string" where
  "remove_hyphens az = filter (\<lambda>c. c \<noteq> CHR ''-'') az"

text \<open>
  The loop of \<^verbatim>\<open>get_spot_prices\<close> (lines 310-324) with its two accumulators.  The result
  is \<open>None\<close> when \<^verbatim>\<open>float(item['SpotPrice'])\<close> raises at an item of a zone not yet seen.
\<close>

fun spot_price_loop ::
  "string \<Rightarrow> spot_price_item list \<Rightarrow> pool list \<Rightarrow> string set \<Rightarrow> pool list option" where
  "spot_price_loop itype [] pools seen_azs = Some pools"
| "spot_price_loop itype (item # items) pools seen_azs =
     (let az = sph_AvailabilityZone item in
      if az \<notin> seen_azs then
        (let pool_id = itype @ ''_'' @ remove_hyphens az in
         case sph_SpotPrice item of
           None \<Rightarrow> None
         | Some p \<Rightarrow>
             spot_price_loop itype items
               (pools @ [\<lparr>pool_az = az, pool_pool_id = pool_id, pool_price = p\<rparr>])
               (insert az seen_azs))
      else spot_price_loop itype items pools seen_azs)"

text \<open>
  \<^verbatim>\<open>get_spot_prices\<close> (lines 300-327).  \<open>spot_price_history\<close> is the request of lines
  303-308, whose start time is five minutes before the clock's reading; any exception
  gives the empty list.
\<close>

definition spot_price_history ::
  "'w env \<Rightarrow> string \<Rightarrow> 'w sys \<Rightarrow> spot_price_item list option \<times> 'w sys" where
  "spot_price_history env itype s =
     (case now env s of (t, s0) \<Rightarrow>
        perform (DescribeSpotPriceHistory itype (t - 300000000))
          (ec2_describe_spot_price_history env itype (t - 300000000)) s0)"

definition get_spot_prices :: "'w env \<Rightarrow> string \<Rightarrow> 'w sys \<Rightarrow> pool list \<times> 'w sys" where
  "get_spot_prices env itype s =
     (case spot_price_history env itype s of
        (None, s1) \<Rightarrow> ([], s1)
      | (Some history, s1) \<Rightarrow>
          (case spot_price_loop itype history [] {} of
             None \<Rightarrow> ([], s1)
           | Some pools \<Rightarrow> (pools, s1)))"

text \<open>
  \<^verbatim>\<open>get_instance_details\<close> (lines 143-165).  The first instance of the first
  reservation is described; without a reservation the function falls off its end and
  returns \<^verbatim>\<open>None\<close>; a reservation without an instance raises \<^verbatim>\<open>IndexError\<close>, which is
  caught.  \<open>py_dict\<close> is the dictionary comprehension over the tags: a later tag with the
  same key overwrites the value in place.
\<close>

definition py_dict :: "(string \<times> string) list \<Rightarrow> (string \<times> string) list" where
  "py_dict kvs = foldl (\<lambda>d kv. AList.update (fst kv) (snd kv) d) [] kvs"

definition details_of :: "raw_instance \<Rightarrow> instance_details" where
  "details_of inst =
     \<lparr>det_instance_id = raw_InstanceId inst,
      det_instance_type = raw_InstanceType inst,
      det_state = raw_StateName inst,
      det_lifecycle = (case raw_InstanceLifecycle inst of None \<Rightarrow> ''normal'' | Some l \<Rightarrow> l),
      det_az = raw_AvailabilityZone inst,
      det_subnet_id = raw_SubnetId inst,
      det_security_groups = raw_SecurityGroups inst,
      det_key_name = raw_KeyName inst,
      det_iam_instance_profile = raw_IamInstanceProfileArn inst,
      det_tags = py_dict (raw_Tags inst),
      det_network_interfaces = raw_NetworkInterfaces inst,
      det_block_device_mappings = raw_BlockDeviceMappings inst\<rparr>"

definition get_instance_details ::
  "'w env \<Rightarrow> string \<Rightarrow> 'w sys \<Rightarrow> instance_details option \<times> 'w sys" where
  "get_instance_details env iid s =
     (case perform (DescribeInstances iid) (ec2_describe_instances env iid) s of
        (None, s1) \<Rightarrow> (None, s1)
      | (Some [], s1) \<Rightarrow> (None, s1)
      | (Some ([] # _), s1) \<Rightarrow> (None, s1)
      | (Some ((inst # _) # _), s1) \<Rightarrow> (Some (details_of inst), s1))"

text \<open>\<^verbatim>\<open>get_current_mode\<close> (lines 167-182).\<close>

definition get_current_mode ::
  "'w env \<Rightarrow> string \<Rightarrow> 'w sys \<Rightarrow> (string \<times> string option) \<times> 'w sys" where
  "get_current_mode env iid s =
     (case get_instance_details env iid s of
        (None, s1) \<Rightarrow> ((''unknown'', None), s1)
      | (Some details, s1) \<Rightarrow>
          (if det_lifecycle details = ''spot''
           then ((''spot'',
                  Some (det_instance_type details @ ''_'' @ remove_hyphens (det_az details))), s1)
           else ((''ondemand'', None), s1)))"

text \<open>
  \<^verbatim>\<open>create_ami_from_instance\<close> (lines 184-215): the image is named after the clock's
  reading, created, and awaited; \<^verbatim>\<open>None\<close> when either request raises.
\<close>

definition create_ami_from_instance ::
  "'w env \<Rightarrow> string \<Rightarrow> string \<Rightarrow> 'w sys \<Rightarrow> string option \<times> 'w sys" where
  "create_ami_from_instance env iid name_prefix s =
     (case now env s of (t, s0) \<Rightarrow>
      (let ami_name = name_prefix @ ''-'' @ strftime env t in
       case perform (CreateImage iid ami_name) (ec2_create_image env iid ami_name) s0 of
         (None, s1) \<Rightarrow> (None, s1)
       | (Some ami, s1) \<Rightarrow>
           (case perform (WaitImageAvailable ami) (ec2_wait_image_available env ami) s1 of
              (False, s2) \<Rightarrow> (None, s2)
            | (True, s2) \<Rightarrow> (Some ami, s2))))"

text \<open>
  The request that \<^verbatim>\<open>launch_instance\<close> builds (lines 220-270); \<open>created\<close> is the clock's
  reading for the tag \<^verbatim>\<open>spot-optimizer-created\<close>.  \<open>truthy\<close> is Python's test of an
  optional string: neither \<^verbatim>\<open>None\<close> nor empty.
\<close>

definition truthy :: "string option \<Rightarrow> bool" where
  "truthy x = (case x of None \<Rightarrow> False | Some v \<Rightarrow> v \<noteq> [])"

definition build_launch_params :: "launch_config \<Rightarrow> string \<Rightarrow> string \<Rightarrow> launch_params" where
  "build_launch_params config target_mode created =
     \<lparr>lp_ImageId = lc_ami_id config,
      lp_InstanceType = lc_instance_type config,
      lp_MinCount = 1,
      lp_MaxCount = 1,
      lp_Tags = lc_tags config @
        [(''spot-optimizer-managed'', ''true''),
         (''spot-optimizer-parent'', lc_old_instance_id config),
         (''spot-optimizer-created'', created)],
      lp_KeyName = (if truthy (lc_key_name config) then lc_key_name config else None),
      lp_IamInstanceProfileArn =
        (if truthy (lc_iam_instance_profile config) then lc_iam_instance_profile config
         else None),
      lp_NetworkInterfaces =
        (case lc_network_interfaces config of
           [] \<Rightarrow> None
         | ni # _ \<Rightarrow>
             Some [\<lparr>ns_DeviceIndex = 0,
                    ns_SubnetId = lc_subnet_id config,
                    ns_Groups = lc_security_groups config,
                    ns_AssociatePublicIpAddress = (ni_public_ip ni \<noteq> None)\<rparr>]),
      lp_SecurityGroupIds =
        (case lc_network_interfaces config of
           [] \<Rightarrow> Some (lc_security_groups config)
         | _ # _ \<Rightarrow> None),
      lp_SubnetId =
        (case lc_network_interfaces config of
           [] \<Rightarrow> Some (lc_subnet_id config)
         | _ # _ \<Rightarrow> None),
      lp_InstanceMarketOptions =
        (if target_mode = ''spot''
         then Some \<lparr>mo_MarketType = ''spot'',
                    mo_SpotInstanceType = ''persistent'',
                    mo_InstanceInterruptionBehavior = ''stop''\<rparr>
         else None)\<rparr>"

text \<open>
  \<^verbatim>\<open>launch_instance\<close> (lines 217-287).  \<^verbatim>\<open>response['Instances'][0]\<close> raises on an empty
  list; every exception gives \<^verbatim>\<open>None\<close>.
\<close>

definition launch_instance ::
  "'w env \<Rightarrow> launch_config \<Rightarrow> string \<Rightarrow> string option \<Rightarrow> 'w sys \<Rightarrow> string option \<times> 'w sys"
  where
  "launch_instance env config target_mode target_pool_id s =
     (case now env s of (t, s0) \<Rightarrow>
      (let launch_params = build_launch_params config target_mode (isoformat env t) in
       case perform (RunInstances launch_params) (ec2_run_instances env launch_params) s0 of
         (None, s1) \<Rightarrow> (None, s1)
       | (Some [], s1) \<Rightarrow> (None, s1)
       | (Some (new_instance_id # _), s1) \<Rightarrow>
           (case perform (WaitInstanceRunning new_instance_id)
                   (ec2_wait_instance_running env new_instance_id) s1 of
              (False, s2) \<Rightarrow> (None, s2)
            | (True, s2) \<Rightarrow> (Some new_instance_id, s2))))"

text \<open>\<^verbatim>\<open>terminate_instance\<close> (lines 289-298).\<close>

definition terminate_instance :: "'w env \<Rightarrow> string \<Rightarrow> 'w sys \<Rightarrow> bool \<times> 'w sys" where
  "terminate_instance env iid s =
     perform (TerminateInstances iid) (ec2_terminate_instances env iid) s"

text \<open>
  \<^verbatim>\<open>AWSResourceManager.get_ondemand_price\<close> (lines 329-366).  The answer of the catalogue
  is the \<^verbatim>\<open>PriceList\<close>, each entry already decoded to its USD price (\<open>None\<close> where the
  decoding of lines 357-361 raises).
\<close>

definition region_map :: "(string \<times> string) list" where
  "region_map =
     [(''us-east-1'', ''US East (N. Virginia)''),
      (''us-west-2'', ''US West (Oregon)''),
      (''ap-south-1'', ''Asia Pacific (Mumbai)''),
      (''eu-west-1'', ''EU (Ireland)''),
      (''us-east-2'', ''US East (Ohio)''),
      (''ap-southeast-1'', ''Asia Pacific (Singapore)'')]"

definition get_ondemand_price ::
  "'w env \<Rightarrow> string \<Rightarrow> string \<Rightarrow> 'w sys \<Rightarrow> price option \<times> 'w sys" where
  "get_ondemand_price env rgn itype s =
     (let location = (case map_of region_map rgn of None \<Rightarrow> rgn | Some l \<Rightarrow> l) in
      case perform (GetProducts itype location) (pricing_get_products env itype location) s of
        (None, s1) \<Rightarrow> (None, s1)
      | (Some [], s1) \<Rightarrow> (None, s1)
      | (Some (None # _), s1) \<Rightarrow> (None, s1)
      | (Some (Some p # _), s1) \<Rightarrow> (Some p, s1))"

subsection \<open>\<^verbatim>\<open>CentralServerClient\<close>\<close>

text \<open>\<^verbatim>\<open>get_pending_commands\<close> (lines 473-485): the empty list on any exception.\<close>

definition get_pending_commands :: "'w env \<Rightarrow> 'w sys \<Rightarrow> pending_command list \<times> 'w sys" where
  "get_pending_commands env s =
     (case perform GetPendingCommands (http_pending_commands env) s of
        (None, s1) \<Rightarrow> ([], s1)
      | (Some commands, s1) \<Rightarrow> (commands, s1))"

text \<open>\<^verbatim>\<open>mark_command_executed\<close> (lines 487-500).\<close>

definition mark_command_executed :: "'w env \<Rightarrow> int \<Rightarrow> 'w sys \<Rightarrow> bool \<times> 'w sys" where
  "mark_command_executed env command_id s =
     perform (MarkCommandExecuted command_id) (http_mark_command_executed env command_id) s"

text \<open>\<^verbatim>\<open>report_switch_event\<close> (lines 502-525).\<close>

definition report_switch_event :: "'w env \<Rightarrow> migration_record \<Rightarrow> 'w sys \<Rightarrow> bool \<times> 'w sys" where
  "report_switch_event env r s = perform (SwitchReport r) (http_switch_report env r) s"

subsection \<open>\<^verbatim>\<open>SpotOptimizerAgent\<close>\<close>

text \<open>The attributes that \<^verbatim>\<open>__init__\<close> sets and the methods below read or write
  (lines 530-542).\<close>

record agent =
  config :: AgentConfig
  last_ondemand_price :: "price option"
  last_ondemand_fetch :: "timestamp option"
  current_mode :: "string option"
  current_pool_id :: "string option"
  switching_in_progress :: bool

text \<open>
  Lines 942-945 of \<^verbatim>\<open>_get_ondemand_price\<close>: the cache is returned when both cache
  attributes are truthy (a price of \<^verbatim>\<open>0.0\<close> is not) and the age in seconds is below
  \<^verbatim>\<open>ondemand_price_interval\<close>; \<open>None\<close> means that control falls through to the fetch.
\<close>

definition cached_ondemand_price :: "'w env \<Rightarrow> agent \<Rightarrow> 'w sys \<Rightarrow> price option \<times> 'w sys" where
  "cached_ondemand_price env a s =
     (case (last_ondemand_price a, last_ondemand_fetch a) of
        (Some p, Some fetched) \<Rightarrow>
          (if p \<noteq> 0 then
             (case now env s of (t, s0) \<Rightarrow>
                if t - fetched < ondemand_price_interval (config a) * 1000000
                then (Some p, s0) else (None, s0))
           else (None, s))
      | _ \<Rightarrow> (None, s))"

text \<open>
  \<^verbatim>\<open>_get_ondemand_price\<close> (lines 940-952).  A fetched price is stored only when it is
  truthy; the result is \<^verbatim>\<open>self.last_ondemand_price or 0.1\<close>.
\<close>

definition agent_get_ondemand_price :: "'w env \<Rightarrow> agent \<Rightarrow> 'w sys \<Rightarrow> price \<times> agent \<times> 'w sys"
  where
  "agent_get_ondemand_price env a s =
     (case cached_ondemand_price env a s of
        (Some p, s0) \<Rightarrow> (p, a, s0)
      | (None, s0) \<Rightarrow>
          (case get_ondemand_price env (region (config a)) (instance_type (config a)) s0 of
             (fetched, s1) \<Rightarrow>
               (case (case fetched of
                        Some p \<Rightarrow>
                          (if p \<noteq> 0 then
                             (case now env s1 of (t, s2) \<Rightarrow>
                                (a\<lparr>last_ondemand_price := Some p,
                                   last_ondemand_fetch := Some t\<rparr>, s2))
                           else (a, s1))
                      | None \<Rightarrow> (a, s1)) of
                  (a', s2) \<Rightarrow>
                    ((case last_ondemand_price a' of
                        Some p \<Rightarrow> if p \<noteq> 0 then p else 1 / 10
                      | None \<Rightarrow> 1 / 10), a', s2))))"

text \<open>
  \<^verbatim>\<open>next((p for p in spot_pools if p['pool_id'] == pool_id), None)\<close> and the price taken
  from it, under the guard \<^verbatim>\<open>mode == 'spot' and pool_id\<close> (lines 842-850).
\<close>

definition pool_price_for :: "string option \<Rightarrow> string option \<Rightarrow> pool list \<Rightarrow> price" where
  "pool_price_for mode pool_id spot_pools =
     (if mode = Some ''spot'' \<and> truthy pool_id then
        (case find (\<lambda>p. Some (pool_pool_id p) = pool_id) spot_pools of
           None \<Rightarrow> 0
         | Some p \<Rightarrow> pool_price p)
      else 0)"

text \<open>\<^verbatim>\<open>instance_details['tags'].get('ami-id', self.config.ami_id)\<close> (line 881).\<close>

definition tag_or :: "(string \<times> string) list \<Rightarrow> string \<Rightarrow> string \<Rightarrow> string" where
  "tag_or tags k dflt = (case map_of tags k of None \<Rightarrow> dflt | Some v \<Rightarrow> v)"

text \<open>Step 3 of \<^verbatim>\<open>execute_switch\<close> (lines 792-802): the launch configuration.\<close>

definition prepare_launch_config :: "instance_details \<Rightarrow> string \<Rightarrow> string \<Rightarrow> launch_config" where
  "prepare_launch_config details new_ami old_instance_id =
     \<lparr>lc_ami_id = new_ami,
      lc_instance_type = det_instance_type details,
      lc_key_name = det_key_name details,
      lc_security_groups = det_security_groups details,
      lc_subnet_id = det_subnet_id details,
      lc_iam_instance_profile = det_iam_instance_profile details,
      lc_tags = det_tags details,
      lc_network_interfaces = det_network_interfaces details,
      lc_old_instance_id = old_instance_id\<rparr>"

text \<open>
  Step 7 (lines 857-868): the old instance is terminated only when
  \<^verbatim>\<open>auto_terminate_enabled\<close> is set; \<^verbatim>\<open>timing_terminated\<close> is the clock's reading after a
  termination that was accepted, and \<^verbatim>\<open>None\<close> otherwise.
\<close>

definition terminate_old ::
  "'w env \<Rightarrow> bool \<Rightarrow> string \<Rightarrow> 'w sys \<Rightarrow> timestamp option \<times> 'w sys" where
  "terminate_old env auto_terminate old_instance_id s =
     (if auto_terminate then
        (case terminate_instance env old_instance_id s of
           (True, s1) \<Rightarrow> (case now env s1 of (t, s2) \<Rightarrow> (Some t, s2))
         | (False, s1) \<Rightarrow> (None, s1))
      else (None, s))"

text \<open>Step 8 (lines 873-908): the arguments of \<^verbatim>\<open>report_switch_event\<close>.\<close>

definition switch_record ::
  "AgentConfig \<Rightarrow> string \<Rightarrow> string option \<Rightarrow> string option \<Rightarrow> instance_details \<Rightarrow>
   string \<Rightarrow> string \<Rightarrow> string option \<Rightarrow> instance_details \<Rightarrow> string \<Rightarrow>
   price \<Rightarrow> price \<Rightarrow> price \<Rightarrow>
   timestamp \<Rightarrow> timestamp \<Rightarrow> timestamp \<Rightarrow> timestamp option \<Rightarrow> string \<Rightarrow> migration_record"
  where
  "switch_record cfg old_instance_id old_mode old_pool_id details
       new_instance_id new_mode new_pool_id new_details new_ami
       on_demand_price old_spot_price new_spot_price
       timing_start timing_ready timing_switched timing_terminated trigger =
     \<lparr>mr_old_instance =
        \<lparr>snap_instance_id = old_instance_id,
         snap_mode = old_mode,
         snap_pool_id = old_pool_id,
         snap_instance_type = det_instance_type details,
         snap_region = region cfg,
         snap_az = det_az details,
         snap_ami_id = tag_or (det_tags details) ''ami-id'' (ami_id cfg)\<rparr>,
      mr_new_instance =
        \<lparr>snap_instance_id = new_instance_id,
         snap_mode = Some new_mode,
         snap_pool_id = new_pool_id,
         snap_instance_type = det_instance_type new_details,
         snap_region = region cfg,
         snap_az = det_az new_details,
         snap_ami_id = new_ami\<rparr>,
      mr_snapshot_used = True,
      mr_snapshot_id = new_ami,
      mr_on_demand = on_demand_price,
      mr_old_spot = old_spot_price,
      mr_new_spot = new_spot_price,
      mr_switch_initiated_at = timing_start,
      mr_new_instance_ready_at = timing_ready,
      mr_traffic_switched_at = timing_switched,
      mr_old_instance_terminated_at = timing_terminated,
      mr_trigger = trigger\<rparr>"

text \<open>Step 9 (lines 917-921): the five assignments that rebind the agent.\<close>

definition rebind ::
  "agent \<Rightarrow> string \<Rightarrow> instance_details \<Rightarrow> string \<Rightarrow> string option \<Rightarrow> agent" where
  "rebind a new_instance_id new_details new_mode new_pool_id =
     a\<lparr>config := (config a)
          \<lparr>instance_id := new_instance_id,
           instance_type := det_instance_type new_details,
           availability_zone := det_az new_details\<rparr>,
       current_mode := Some new_mode,
       current_pool_id := new_pool_id\<rparr>"

text \<open>
  The \<^verbatim>\<open>try\<close> block of \<^verbatim>\<open>execute_switch\<close> (lines 760-931), steps 1 to 9.  Every
  \<^verbatim>\<open>return False\<close> leaves the agent as it is; the requests made so far stay in the
  trace.  The tests \<^verbatim>\<open>if not ami_id\<close> and \<^verbatim>\<open>if not new_instance_id\<close> also reject the
  empty string.  No statement of the block raises outside the calls modelled here, so
  the \<^verbatim>\<open>except\<close> clause of line 933 has no branch of its own.
\<close>

definition switch_steps ::
  "'w env \<Rightarrow> string \<Rightarrow> string option \<Rightarrow> string \<Rightarrow> agent \<Rightarrow> 'w sys \<Rightarrow> bool \<times> agent \<times> 'w sys"
  where
  "switch_steps env target_mode target_pool_id trigger a s =
     (let old_instance_id = instance_id (config a);
          old_mode = current_mode a;
          old_pool_id = current_pool_id a in
      case get_instance_details env old_instance_id s of
        (None, s1) \<Rightarrow> (False, a, s1)
      | (Some details, s1) \<Rightarrow>
      (case create_ami_from_instance env old_instance_id
              (''spot-optimizer-'' @ old_instance_id) s1 of
        (ami, s2) \<Rightarrow>
      if \<not> truthy ami then (False, a, s2) else
      (let new_ami = the ami;
           launch_cfg = prepare_launch_config details new_ami old_instance_id in
       case now env s2 of (timing_start, s3) \<Rightarrow>
      (case launch_instance env launch_cfg target_mode target_pool_id s3 of
        (launched, s4) \<Rightarrow>
      if \<not> truthy launched then (False, a, s4) else
      (let new_instance_id = the launched in
       case now env s4 of (timing_ready, s5) \<Rightarrow>
      (case perform (Sleep 5) (time_sleep env 5) s5 of (_, s6) \<Rightarrow>
      (case get_instance_details env new_instance_id s6 of
        (None, s7) \<Rightarrow> (False, a, s7)
      | (Some new_details, s7) \<Rightarrow>
      (case get_current_mode env new_instance_id s7 of ((new_mode, new_pool_id), s8) \<Rightarrow>
      (case agent_get_ondemand_price env a s8 of (on_demand_price, a1, s9) \<Rightarrow>
      (case get_spot_prices env (instance_type (config a1)) s9 of (spot_pools, s10) \<Rightarrow>
      (let old_spot_price = pool_price_for old_mode old_pool_id spot_pools;
           new_spot_price = pool_price_for (Some new_mode) new_pool_id spot_pools in
       case now env s10 of (timing_switched, s11) \<Rightarrow>
      (case terminate_old env (auto_terminate_enabled (config a1)) old_instance_id s11 of
        (timing_terminated, s12) \<Rightarrow>
      (case report_switch_event env
              (switch_record (config a1) old_instance_id old_mode old_pool_id details
                 new_instance_id new_mode new_pool_id new_details new_ami
                 on_demand_price old_spot_price new_spot_price
                 timing_start timing_ready timing_switched timing_terminated trigger) s12 of
        (report_success, s13) \<Rightarrow>
          (True, rebind a1 new_instance_id new_details new_mode new_pool_id, s13)
      )))))))))))))"

text \<open>
  \<^verbatim>\<open>execute_switch\<close> (lines 751-938) as one sequential call: the test and the setting of
  \<^verbatim>\<open>switching_in_progress\<close> under the lock, the \<^verbatim>\<open>try\<close> block, and the \<^verbatim>\<open>finally\<close>
  clause that clears the flag.  The early \<^verbatim>\<open>return False\<close> of line 756 stands before the
  \<^verbatim>\<open>try\<close>, so it does not clear the flag.
\<close>

definition execute_switch ::
  "'w env \<Rightarrow> string \<Rightarrow> string option \<Rightarrow> string \<Rightarrow> agent \<Rightarrow> 'w sys \<Rightarrow> bool \<times> agent \<times> 'w sys"
  where
  "execute_switch env target_mode target_pool_id trigger a s =
     (if switching_in_progress a then (False, a, s)
      else
        (case switch_steps env target_mode target_pool_id trigger
                (a\<lparr>switching_in_progress := True\<rparr>) s of
           (result, a', s') \<Rightarrow> (result, a'\<lparr>switching_in_progress := False\<rparr>, s')))"

text \<open>
  The body of the \<^verbatim>\<open>for\<close> loop of \<^verbatim>\<open>_command_processor_loop\<close> (lines 726-744).  The
  acknowledgement of line 744 stands inside the \<^verbatim>\<open>if\<close> of line 726.
\<close>

definition process_command :: "'w env \<Rightarrow> pending_command \<Rightarrow> agent \<Rightarrow> 'w sys \<Rightarrow> agent \<times> 'w sys"
  where
  "process_command env cmd a s =
     (if cmd_instance_id cmd = instance_id (config a) then
        (let target_mode =
               (if cmd_target_mode cmd = ''pool'' then ''spot'' else cmd_target_mode cmd) in
         case execute_switch env target_mode (cmd_target_pool_id cmd) ''manual'' a s of
           (success, a1, s1) \<Rightarrow>
             (case mark_command_executed env (cmd_id cmd) s1 of (_, s2) \<Rightarrow> (a1, s2)))
      else (a, s))"

fun process_commands ::
  "'w env \<Rightarrow> pending_command list \<Rightarrow> agent \<Rightarrow> 'w sys \<Rightarrow> agent \<times> 'w sys" where
  "process_commands env [] a s = (a, s)"
| "process_commands env (cmd # cmds) a s =
     (case process_command env cmd a s of (a1, s1) \<Rightarrow> process_commands env cmds a1 s1)"

text \<open>
  One iteration of the \<^verbatim>\<open>while\<close> loop of \<^verbatim>\<open>_command_processor_loop\<close> (lines 710-747),
  without the wait on the stop event.
\<close>

definition command_processor_tick :: "'w env \<Rightarrow> agent \<Rightarrow> 'w sys \<Rightarrow> agent \<times> 'w sys" where
  "command_processor_tick env a s =
     (if \<not> enabled (config a) \<or> \<not> auto_switch_enabled (config a) then (a, s)
      else if switching_in_progress a then (a, s)
      else
        (case get_pending_commands env s of
           (commands, s1) \<Rightarrow> process_commands env commands a s1))"

text \<open>
  The ids of the commands of a list that are addressed to the instance which the agent
  describes at the moment each of them is processed.  The identity at that moment is
  the one that the commands before it have left: a successful switch rebinds the agent,
  so a later command for the old instance no longer matches and one for the new
  instance does.
\<close>

fun addressed_when_processed ::
  "'w env \<Rightarrow> pending_command list \<Rightarrow> agent \<Rightarrow> 'w sys \<Rightarrow> int list" where
  "addressed_when_processed env [] a s = []"
| "addressed_when_processed env (cmd # cmds) a s =
     (if cmd_instance_id cmd = instance_id (config a) then [cmd_id cmd] else []) @
     (case process_command env cmd a s of
        (a1, s1) \<Rightarrow> addressed_when_processed env cmds a1 s1)"

subsection \<open>The entry protocol of \<^verbatim>\<open>execute_switch\<close> under interleaving\<close>

text \<open>
  Several threads may call \<^verbatim>\<open>execute_switch\<close>.  What they share is the lock
  \<^verbatim>\<open>switch_lock\<close> and the flag \<^verbatim>\<open>switching_in_progress\<close>; the program points of a
  thread are

  \<^item> \<open>Idle\<close>: outside \<^verbatim>\<open>execute_switch\<close>;
  \<^item> \<open>Acquire\<close>: at line 753, waiting for the lock;
  \<^item> \<open>Test\<close>: at line 754, holding the lock, before the flag is read;
  \<^item> \<open>ReturnBusy\<close>: at line 756, \<^verbatim>\<open>return False\<close>, which leaves the \<^verbatim>\<open>with\<close> block;
  \<^item> \<open>SetFlag\<close>: at line 758, before the flag is set;
  \<^item> \<open>Release\<close>: at the end of the \<^verbatim>\<open>with\<close> block, before the lock is released;
  \<^item> \<open>Body\<close>: in the \<^verbatim>\<open>try\<close> block (lines 760-935), where the migration steps run;
  \<^item> \<open>Finally\<close>: at line 938, before the flag is cleared.

  A step of thread \<open>t\<close> is one of these atomic actions; \<open>None\<close> means that \<open>t\<close> cannot
  move (the lock is held).  The migration steps touch neither the lock nor the flag, so
  the \<^verbatim>\<open>try\<close> block is one step.
\<close>

datatype pc = Idle | Acquire | Test | ReturnBusy | SetFlag | Release | Body | Finally

record shared =
  switch_lock :: "nat option"
  in_progress :: bool
  pcs :: "nat \<Rightarrow> pc"

definition thread_step :: "nat \<Rightarrow> shared \<Rightarrow> shared option" where
  "thread_step t c =
     (case pcs c t of
        Idle \<Rightarrow> Some (c\<lparr>pcs := (pcs c)(t := Acquire)\<rparr>)
      | Acquire \<Rightarrow>
          (if switch_lock c = None
           then Some (c\<lparr>switch_lock := Some t, pcs := (pcs c)(t := Test)\<rparr>)
           else None)
      | Test \<Rightarrow>
          (if in_progress c
           then Some (c\<lparr>pcs := (pcs c)(t := ReturnBusy)\<rparr>)
           else Some (c\<lparr>pcs := (pcs c)(t := SetFlag)\<rparr>))
      | ReturnBusy \<Rightarrow> Some (c\<lparr>switch_lock := None, pcs := (pcs c)(t := Idle)\<rparr>)
      | SetFlag \<Rightarrow> Some (c\<lparr>in_progress := True, pcs := (pcs c)(t := Release)\<rparr>)
      | Release \<Rightarrow> Some (c\<lparr>switch_lock := None, pcs := (pcs c)(t := Body)\<rparr>)
      | Body \<Rightarrow> Some (c\<lparr>pcs := (pcs c)(t := Finally)\<rparr>)
      | Finally \<Rightarrow> Some (c\<lparr>in_progress := False, pcs := (pcs c)(t := Idle)\<rparr>))"

text \<open>A schedule is the list of the threads that move, in order.\<close>

fun run_schedule :: "nat list \<Rightarrow> shared \<Rightarrow> shared option" where
  "run_schedule [] c = Some c"
| "run_schedule (t # ts) c =
     (case thread_step t c of None \<Rightarrow> None | Some c' \<Rightarrow> run_schedule ts c')"

text \<open>The state after \<^verbatim>\<open>__init__\<close> (lines 536 and 542): lock free, flag clear.\<close>

definition initial_shared :: shared where
  "initial_shared = \<lparr>switch_lock = None, in_progress = False, pcs = (\<lambda>_. Idle)\<rparr>"

text \<open>A thread is past the test of line 754 and has not yet cleared the flag.\<close>

definition migrating :: "pc \<Rightarrow> bool" where
  "migrating p = (p = SetFlag \<or> p = Release \<or> p = Body \<or> p = Finally)"

text \<open>
  The invariant used for the protocol: a thread between \<open>Test\<close> and \<open>Release\<close> holds
  the lock; the flag is set exactly when some thread is between the setting and the
  clearing of the flag; and at most one thread is past the test.
\<close>

definition holds_lock :: "pc \<Rightarrow> bool" where
  "holds_lock p = (p = Test \<or> p = ReturnBusy \<or> p = SetFlag \<or> p = Release)"

definition flag_owner :: "pc \<Rightarrow> bool" where
  "flag_owner p = (p = Release \<or> p = Body \<or> p = Finally)"

definition protocol_inv :: "shared \<Rightarrow> bool" where
  "protocol_inv c =
     ((\<forall>t. holds_lock (pcs c t) \<longrightarrow> switch_lock c = Some t) \<and>
      (in_progress c = (\<exists>t. flag_owner (pcs c t))) \<and>
      (\<forall>t u. migrating (pcs c t) \<and> migrating (pcs c u) \<longrightarrow> t = u))"

subsection \<open>Assumption on the clock\<close>

text \<open>
  \<open>clock env s\<close> is what \<^verbatim>\<open>datetime.utcnow()\<close> would return in state \<open>s\<close>.  The clock is
  monotone when no primitive operation sets it back.
\<close>

definition clock :: "'w env \<Rightarrow> 'w sys \<Rightarrow> timestamp" where
  "clock env s = fst (utcnow env (world s))"

definition monotone_clock :: "'w env \<Rightarrow> bool" where
  "monotone_clock env =
     ((\<forall>w. fst (utcnow env w) \<le> fst (utcnow env (snd (utcnow env w)))) \<and>
      (\<forall>n w. fst (utcnow env w) \<le> fst (utcnow env (snd (time_sleep env n w)))) \<and>
      (\<forall>i w. fst (utcnow env w) \<le> fst (utcnow env (snd (ec2_describe_instances env i w)))) \<and>
      (\<forall>i n w. fst (utcnow env w) \<le> fst (utcnow env (snd (ec2_create_image env i n w)))) \<and>
      (\<forall>i w. fst (utcnow env w) \<le> fst (utcnow env (snd (ec2_wait_image_available env i w)))) \<and>
      (\<forall>p w. fst (utcnow env w) \<le> fst (utcnow env (snd (ec2_run_instances env p w)))) \<and>
      (\<forall>i w. fst (utcnow env w) \<le> fst (utcnow env (snd (ec2_wait_instance_running env i w)))) \<and>
      (\<forall>i w. fst (utcnow env w) \<le> fst (utcnow env (snd (ec2_terminate_instances env i w)))) \<and>
      (\<forall>i t w. fst (utcnow env w)
                 \<le> fst (utcnow env (snd (ec2_describe_spot_price_history env i t w)))) \<and>
      (\<forall>i l w. fst (utcnow env w) \<le> fst (utcnow env (snd (pricing_get_products env i l w)))) \<and>
      (\<forall>w. fst (utcnow env w) \<le> fst (utcnow env (snd (http_pending_commands env w)))) \<and>
      (\<forall>i w. fst (utcnow env w) \<le> fst (utcnow env (snd (http_mark_command_executed env i w)))) \<and>
      (\<forall>r w. fst (utcnow env w) \<le> fst (utcnow env (snd (http_switch_report env r w)))))"

subsection \<open>Reading the trace\<close>

text \<open>The launch requests, the switch reports, the acknowledged command ids and the
  terminated instances of a trace.\<close>

fun launches :: "call list \<Rightarrow> launch_params list" where
  "launches [] = []"
| "launches (RunInstances p # cs) = p # launches cs"
| "launches (_ # cs) = launches cs"

fun reports :: "call list \<Rightarrow> migration_record list" where
  "reports [] = []"
| "reports (SwitchReport r # cs) = r # reports cs"
| "reports (_ # cs) = reports cs"

fun acknowledged :: "call list \<Rightarrow> int list" where
  "acknowledged [] = []"
| "acknowledged (MarkCommandExecuted i # cs) = i # acknowledged cs"
| "acknowledged (_ # cs) = acknowledged cs"

fun terminations :: "call list \<Rightarrow> string list" where
  "terminations [] = []"
| "terminations (TerminateInstances i # cs) = i # terminations cs"
| "terminations (_ # cs) = terminations cs"

subsection \<open>A concrete world: scenario 1 of the specification\<close>

text \<open>
  Node \<^verbatim>\<open>i-A\<close> is a spot instance of type \<^verbatim>\<open>m5.large\<close> in \<^verbatim>\<open>ap-south-1a\<close>, started from
  the image \<^verbatim>\<open>ami-0\<close>.  The world is the clock in microseconds; every request takes one
  microsecond.  Image creation gives \<^verbatim>\<open>ami-1\<close>, the launch gives the on-demand instance
  \<^verbatim>\<open>i-B\<close>, and the controller has one command queued: id 7, for \<^verbatim>\<open>i-A\<close>, target
  \<^verbatim>\<open>ondemand\<close>.
\<close>

definition inst_A :: raw_instance where
  "inst_A =
     \<lparr>raw_InstanceId = ''i-A'', raw_InstanceType = ''m5.large'', raw_StateName = ''running'',
      raw_InstanceLifecycle = Some ''spot'', raw_AvailabilityZone = ''ap-south-1a'',
      raw_SubnetId = Some ''subnet-1'', raw_SecurityGroups = [''sg-1''],
      raw_KeyName = Some ''key-1'', raw_IamInstanceProfileArn = None,
      raw_Tags = [(''Name'', ''node'')], raw_NetworkInterfaces = [],
      raw_BlockDeviceMappings = []\<rparr>"

definition inst_B :: raw_instance where
  "inst_B = inst_A\<lparr>raw_InstanceId := ''i-B'', raw_InstanceLifecycle := None\<rparr>"

definition scenario_env :: "int env" where
  "scenario_env =
     \<lparr>utcnow = (\<lambda>w. (w, w + 1)),
      strftime = (\<lambda>t. ''20240101-000000''),
      isoformat = (\<lambda>t. ''2024-01-01T00:00:00''),
      time_sleep = (\<lambda>n w. ((), w + int n * 1000000)),
      ec2_describe_instances =
        (\<lambda>i w. (if i = ''i-A'' then Some [[inst_A]]
                 else if i = ''i-B'' then Some [[inst_B]] else Some [], w + 1)),
      ec2_create_image = (\<lambda>i n w. (Some ''ami-1'', w + 1)),
      ec2_wait_image_available = (\<lambda>i w. (True, w + 1)),
      ec2_run_instances = (\<lambda>p w. (Some [''i-B''], w + 1)),
      ec2_wait_instance_running = (\<lambda>i w. (True, w + 1)),
      ec2_terminate_instances = (\<lambda>i w. (True, w + 1)),
      ec2_describe_spot_price_history =
        (\<lambda>i t w.
           (Some [\<lparr>sph_AvailabilityZone = ''ap-south-1a'', sph_SpotPrice = Some (3 / 100)\<rparr>,
                  \<lparr>sph_AvailabilityZone = ''ap-south-1b'', sph_SpotPrice = Some (4 / 100)\<rparr>,
                  \<lparr>sph_AvailabilityZone = ''ap-south-1a'', sph_SpotPrice = Some (5 / 100)\<rparr>],
            w + 1)),
      pricing_get_products = (\<lambda>i l w. (Some [Some (96 / 1000)], w + 1)),
      http_pending_commands =
        (\<lambda>w. (Some [\<lparr>cmd_id = 7, cmd_instance_id = ''i-A'', cmd_target_mode = ''ondemand'',
                      cmd_target_pool_id = None\<rparr>], w + 1)),
      http_mark_command_executed = (\<lambda>i w. (True, w + 1)),
      http_switch_report = (\<lambda>r w. (True, w + 1))\<rparr>"

definition scenario_config :: AgentConfig where
  "scenario_config =
     \<lparr>central_server_url = ''https://controller'', client_token = ''token'',
      region = ''ap-south-1'', instance_id = ''i-A'', instance_type = ''m5.large'',
      availability_zone = ''ap-south-1a'', ami_id = ''ami-0'', agent_id = ''agent-1'',
      hostname = ''node'', agent_version = ''2.0.0'', spot_price_interval = 600,
      ondemand_price_interval = 3600, heartbeat_interval = 60, command_check_interval = 30,
      enabled = True, auto_switch_enabled = True, auto_terminate_enabled = True,
      is_ec2 = True\<rparr>"

definition scenario_agent :: agent where
  "scenario_agent =
     \<lparr>config = scenario_config, last_ondemand_price = None, last_ondemand_fetch = None,
      current_mode = Some ''spot'', current_pool_id = Some ''m5.large_apsouth1a'',
      switching_in_progress = False\<rparr>"

definition scenario_sys :: "int sys" where
  "scenario_sys = \<lparr>world = 0, trace = []\<rparr>"

section \<open>Properties\<close>

lemmas model_defs = execute_switch_def switch_steps_def get_instance_details_def
  create_ami_from_instance_def launch_instance_def get_current_mode_def
  agent_get_ondemand_price_def cached_ondemand_price_def get_ondemand_price_def
  get_spot_prices_def spot_price_history_def terminate_instance_def report_switch_event_def
  mark_command_executed_def get_pending_commands_def perform_def now_def
  build_launch_params_def details_of_def py_dict_def truthy_def pool_price_for_def tag_or_def
  remove_hyphens_def region_map_def process_command_def command_processor_tick_def
  prepare_launch_config_def terminate_old_def switch_record_def rebind_def

lemmas scenario_defs = scenario_env_def scenario_agent_def scenario_config_def scenario_sys_def
  inst_A_def inst_B_def

subsection \<open>Spot price samples\<close>






subsection \<open>What each operation adds to the trace\<close>

lemma launches_append: "launches (xs @ ys) = launches xs @ launches ys"
  by (induction xs rule: launches.induct) auto

lemma reports_append: "reports (xs @ ys) = reports xs @ reports ys"
  by (induction xs rule: reports.induct) auto

lemma acknowledged_append: "acknowledged (xs @ ys) = acknowledged xs @ acknowledged ys"
  by (induction xs rule: acknowledged.induct) auto

lemma terminations_append: "terminations (xs @ ys) = terminations xs @ terminations ys"
  by (induction xs rule: terminations.induct) auto

lemmas trace_append = launches_append reports_append acknowledged_append terminations_append

lemma now_calls:
  assumes "now env s = (t, s')"
  shows "trace s' = trace s"
  using assms by (auto simp: now_def split: prod.splits)

lemma perform_calls:
  assumes "perform c f s = (r, s')"
  shows "trace s' = trace s @ [c]"
  using assms by (auto simp: perform_def split: prod.splits)

lemma get_instance_details_calls:
  assumes "get_instance_details env i s = (r, s')"
  shows "trace s' = trace s @ [DescribeInstances i]"
  using assms
  by (auto simp: get_instance_details_def dest: perform_calls
           split: prod.splits option.splits list.splits)

lemma get_current_mode_calls:
  assumes "get_current_mode env i s = (r, s')"
  shows "trace s' = trace s @ [DescribeInstances i]"
  using assms
  by (auto simp: get_current_mode_def dest: get_instance_details_calls
           split: prod.splits option.splits if_splits)

lemma create_ami_from_instance_calls:
  assumes "create_ami_from_instance env i n s = (r, s')"
  shows "launches (trace s') = launches (trace s)"
    and "reports (trace s') = reports (trace s)"
    and "acknowledged (trace s') = acknowledged (trace s)"
    and "terminations (trace s') = terminations (trace s)"
  using assms
  by (auto simp: create_ami_from_instance_def Let_def trace_append
           dest!: perform_calls now_calls
           split: prod.splits option.splits bool.splits)

lemma launch_instance_calls:
  assumes "launch_instance env cfg tm tp s = (r, s')"
  shows "launches (trace s') =
           launches (trace s) @ [build_launch_params cfg tm (isoformat env (fst (now env s)))]"
    and "reports (trace s') = reports (trace s)"
    and "acknowledged (trace s') = acknowledged (trace s)"
    and "terminations (trace s') = terminations (trace s)"
  using assms
  by (auto simp: launch_instance_def Let_def trace_append
           dest!: perform_calls now_calls
           split: prod.splits option.splits bool.splits list.splits)

lemma get_ondemand_price_calls:
  assumes "get_ondemand_price env rg it s = (r, s')"
  shows "\<exists>l. trace s' = trace s @ [GetProducts it l]"
  using assms
  by (auto simp: get_ondemand_price_def Let_def dest!: perform_calls
           split: prod.splits option.splits list.splits)

lemma agent_get_ondemand_price_calls:
  assumes "agent_get_ondemand_price env a s = (p, a', s')"
  shows "launches (trace s') = launches (trace s)"
    and "reports (trace s') = reports (trace s)"
    and "acknowledged (trace s') = acknowledged (trace s)"
    and "terminations (trace s') = terminations (trace s)"
  using assms
  by (auto simp: agent_get_ondemand_price_def cached_ondemand_price_def trace_append
           dest!: get_ondemand_price_calls now_calls
           split: prod.splits option.splits if_splits)

lemma get_spot_prices_calls:
  assumes "get_spot_prices env it s = (r, s')"
  shows "launches (trace s') = launches (trace s)"
    and "reports (trace s') = reports (trace s)"
    and "acknowledged (trace s') = acknowledged (trace s)"
    and "terminations (trace s') = terminations (trace s)"
  using assms
  by (auto simp: get_spot_prices_def spot_price_history_def trace_append
           dest!: perform_calls now_calls
           split: prod.splits option.splits)

lemma terminate_old_calls:
  assumes "terminate_old env flag old s = (r, s')"
  shows "launches (trace s') = launches (trace s)"
    and "reports (trace s') = reports (trace s)"
    and "acknowledged (trace s') = acknowledged (trace s)"
    and "terminations (trace s') = terminations (trace s) @ (if flag then [old] else [])"
  using assms
  by (auto simp: terminate_old_def terminate_instance_def trace_append
           dest!: perform_calls now_calls
           split: prod.splits bool.splits if_splits)

lemma report_switch_event_calls:
  assumes "report_switch_event env r s = (ok, s')"
  shows "trace s' = trace s @ [SwitchReport r]"
  using assms by (auto simp: report_switch_event_def dest: perform_calls)

lemma mark_command_executed_calls:
  assumes "mark_command_executed env i s = (ok, s')"
  shows "trace s' = trace s @ [MarkCommandExecuted i]"
  using assms by (auto simp: mark_command_executed_def dest: perform_calls)

subsection \<open>The path of a successful switch\<close>

lemma switch_steps_success:
  assumes "switch_steps env tm tp trig a s = (True, a', s')"
  obtains details s1 new_ami s2 t0 s3 nid s4 t1 s5 u s6 nd s7 nm np s8 odp a1 s9
    pools s10 t2 s11 t3 s12 ok
  where "get_instance_details env (instance_id (config a)) s = (Some details, s1)"
    and "create_ami_from_instance env (instance_id (config a))
           (''spot-optimizer-'' @ instance_id (config a)) s1 = (Some new_ami, s2)"
    and "now env s2 = (t0, s3)"
    and "launch_instance env (prepare_launch_config details new_ami (instance_id (config a)))
           tm tp s3 = (Some nid, s4)"
    and "now env s4 = (t1, s5)"
    and "perform (Sleep 5) (time_sleep env 5) s5 = (u, s6)"
    and "get_instance_details env nid s6 = (Some nd, s7)"
    and "get_current_mode env nid s7 = ((nm, np), s8)"
    and "agent_get_ondemand_price env a s8 = (odp, a1, s9)"
    and "get_spot_prices env (instance_type (config a1)) s9 = (pools, s10)"
    and "now env s10 = (t2, s11)"
    and "terminate_old env (auto_terminate_enabled (config a1)) (instance_id (config a)) s11
           = (t3, s12)"
    and "report_switch_event env
           (switch_record (config a1) (instance_id (config a)) (current_mode a)
              (current_pool_id a) details nid nm np nd new_ami odp
              (pool_price_for (current_mode a) (current_pool_id a) pools)
              (pool_price_for (Some nm) np pools) t0 t1 t2 t3 trig) s12 = (ok, s')"
    and "a' = rebind a1 nid nd nm np"
    and "new_ami \<noteq> []"
    and "nid \<noteq> []"
  using assms
  unfolding switch_steps_def Let_def
  by (auto simp: truthy_def split: prod.splits option.splits if_splits)

lemma switch_steps_abort:
  assumes "switch_steps env tm tp trig a s = (False, a', s')"
  shows "a' = a"
  using assms
  unfolding switch_steps_def Let_def
  by (simp split: if_splits prod.splits option.splits)

lemma rebind_fields:
  "instance_id (config (rebind a nid nd nm np)) = nid"
  "instance_type (config (rebind a nid nd nm np)) = det_instance_type nd"
  "availability_zone (config (rebind a nid nd nm np)) = det_az nd"
  "current_mode (rebind a nid nd nm np) = Some nm"
  "current_pool_id (rebind a nid nd nm np) = np"
  "ami_id (config (rebind a nid nd nm np)) = ami_id (config a)"
  by (simp_all add: rebind_def)

subsection \<open>Aborted switches\<close>

text \<open>
  Claim C9.  Whenever \<^verbatim>\<open>execute_switch\<close> returns \<^verbatim>\<open>False\<close>, at whatever step it gave up,
  the identity of the agent is what it was before the call: \<^verbatim>\<open>instance_id\<close>,
  \<^verbatim>\<open>instance_type\<close>, \<^verbatim>\<open>availability_zone\<close>, \<^verbatim>\<open>current_mode\<close> and
  \<^verbatim>\<open>current_pool_id\<close> are unchanged.
\<close>

theorem abort_keeps_identity:
  assumes "execute_switch env tm tp trig a s = (False, a', s')"
  shows "instance_id (config a') = instance_id (config a) \<and>
         instance_type (config a') = instance_type (config a) \<and>
         availability_zone (config a') = availability_zone (config a) \<and>
         current_mode a' = current_mode a \<and>
         current_pool_id a' = current_pool_id a"
proof (cases "switching_in_progress a")
  case True
  with assms show ?thesis by (simp add: execute_switch_def)
next
  case False
  with assms obtain b where
    st: "switch_steps env tm tp trig (a\<lparr>switching_in_progress := True\<rparr>) s = (False, b, s')"
    and a': "a' = b\<lparr>switching_in_progress := False\<rparr>"
    by (auto simp: execute_switch_def split: prod.splits)
  from switch_steps_abort [OF st] a' show ?thesis by simp
qed

text \<open>
  A switch that gives up after the successor was launched: the world of scenario 1,
  except that \<^verbatim>\<open>i-B\<close> cannot be described.  The call returns \<^verbatim>\<open>False\<close>, one instance
  was launched, and the agent still describes \<^verbatim>\<open>i-A\<close>.
\<close>

theorem abort_keeps_identity_witness:
  "fst (execute_switch
          (scenario_env\<lparr>ec2_describe_instances :=
             (\<lambda>i w. (if i = ''i-A'' then Some [[inst_A]] else None, w + 1))\<rparr>)
          ''ondemand'' None ''manual'' scenario_agent scenario_sys) = False \<and>
   length (launches (trace (snd (snd (execute_switch
          (scenario_env\<lparr>ec2_describe_instances :=
             (\<lambda>i w. (if i = ''i-A'' then Some [[inst_A]] else None, w + 1))\<rparr>)
          ''ondemand'' None ''manual'' scenario_agent scenario_sys))))) = 1 \<and>
   instance_id (config (fst (snd (execute_switch
          (scenario_env\<lparr>ec2_describe_instances :=
             (\<lambda>i w. (if i = ''i-A'' then Some [[inst_A]] else None, w + 1))\<rparr>)
          ''ondemand'' None ''manual'' scenario_agent scenario_sys)))) = ''i-A'' \<and>
   current_mode (fst (snd (execute_switch
          (scenario_env\<lparr>ec2_describe_instances :=
             (\<lambda>i w. (if i = ''i-A'' then Some [[inst_A]] else None, w + 1))\<rparr>)
          ''ondemand'' None ''manual'' scenario_agent scenario_sys))) = Some ''spot''"
proof -
  define env where "env = scenario_env\<lparr>ec2_describe_instances :=
             (\<lambda>i w. (if i = ''i-A'' then Some [[inst_A]] else None, w + 1))\<rparr>"
  define res where "res = execute_switch env ''ondemand'' None ''manual'' scenario_agent scenario_sys"
  have f: "fst res = False"
    unfolding res_def env_def by (simp add: model_defs scenario_defs Let_def)
  have l: "length (launches (trace (snd (snd res)))) = 1"
    unfolding res_def env_def by (simp add: model_defs scenario_defs Let_def)
  have e: "execute_switch env ''ondemand'' None ''manual'' scenario_agent scenario_sys =
             (False, fst (snd res), snd (snd res))"
    using f by (simp add: res_def prod_eq_iff)
  have "instance_id (config (fst (snd res))) = instance_id (config scenario_agent) \<and>
        current_mode (fst (snd res)) = current_mode scenario_agent"
    using abort_keeps_identity [OF e] by simp
  then have "instance_id (config (fst (snd res))) = ''i-A'' \<and>
             current_mode (fst (snd res)) = Some ''spot''"
    by (simp add: scenario_defs)
  with f l show ?thesis unfolding res_def env_def by simp
qed

lemma create_ami_from_instance_fails:
  assumes "fst (ec2_create_image env i (n @ ''-'' @ strftime env (fst (now env s)))
                  (world (snd (now env s)))) = None
           \<or> (\<exists>ami. fst (ec2_create_image env i (n @ ''-'' @ strftime env (fst (now env s)))
                             (world (snd (now env s)))) = Some ami \<and>
                    \<not> fst (ec2_wait_image_available env ami
                             (snd (ec2_create_image env i
                                     (n @ ''-'' @ strftime env (fst (now env s)))
                                     (world (snd (now env s)))))))"
  shows "fst (create_ami_from_instance env i n s) = None"
  using assms
  by (auto simp: create_ami_from_instance_def perform_def Let_def
           split: prod.splits option.splits bool.splits)

text \<open>
  Claim C3.  When the old instance was described and \<^verbatim>\<open>create_ami_from_instance\<close> fails,
  \<^verbatim>\<open>execute_switch\<close> returns \<^verbatim>\<open>False\<close> right after the failed call: the trace has no
  further launch request and no further switch report, the flag
  \<^verbatim>\<open>switching_in_progress\<close> is clear, and the next tick of the command processor is not
  short-circuited by the flag: if the agent is enabled it fetches the pending commands
  and processes them.
\<close>

theorem image_failure_aborts:
  assumes "\<not> switching_in_progress a"
    and "get_instance_details env (instance_id (config a)) s = (Some d, s1)"
    and "create_ami_from_instance env (instance_id (config a))
           (''spot-optimizer-'' @ instance_id (config a)) s1 = (None, s2)"
  shows "\<exists>a'. execute_switch env tm tp trig a s = (False, a', s2) \<and>
           \<not> switching_in_progress a' \<and>
           launches (trace s2) = launches (trace s) \<and>
           reports (trace s2) = reports (trace s) \<and>
           command_processor_tick env a' s2 =
             (if enabled (config a') \<and> auto_switch_enabled (config a')
              then process_commands env (fst (get_pending_commands env s2)) a'
                     (snd (get_pending_commands env s2))
              else (a', s2))"
proof -
  have st: "switch_steps env tm tp trig (a\<lparr>switching_in_progress := True\<rparr>) s =
              (False, a\<lparr>switching_in_progress := True\<rparr>, s2)"
    using assms(2,3) by (simp add: switch_steps_def Let_def truthy_def)
  have ex: "execute_switch env tm tp trig a s =
              (False, a\<lparr>switching_in_progress := False\<rparr>, s2)"
    using assms(1) st by (simp add: execute_switch_def)
  have l: "launches (trace s2) = launches (trace s)"
    using create_ami_from_instance_calls(1) [OF assms(3)]
      get_instance_details_calls [OF assms(2)]
    by (simp add: trace_append)
  have r: "reports (trace s2) = reports (trace s)"
    using create_ami_from_instance_calls(2) [OF assms(3)]
      get_instance_details_calls [OF assms(2)]
    by (simp add: trace_append)
  have t: "command_processor_tick env (a\<lparr>switching_in_progress := False\<rparr>) s2 =
             (if enabled (config a) \<and> auto_switch_enabled (config a)
              then process_commands env (fst (get_pending_commands env s2))
                     (a\<lparr>switching_in_progress := False\<rparr>)
                     (snd (get_pending_commands env s2))
              else (a\<lparr>switching_in_progress := False\<rparr>, s2))"
    by (simp add: command_processor_tick_def split: prod.splits)
  show ?thesis
    using ex l r t by simp
qed

text \<open>
  The world of scenario 1 where the image never becomes available: the call returns
  \<^verbatim>\<open>False\<close>, the trace holds the three requests up to the wait and nothing else.
\<close>

theorem image_failure_aborts_witness:
  "\<not> switching_in_progress scenario_agent \<and>
   fst (get_instance_details
          (scenario_env\<lparr>ec2_wait_image_available := (\<lambda>i w. (False, w + 1))\<rparr>)
          (instance_id (config scenario_agent)) scenario_sys) \<noteq> None \<and>
   fst (execute_switch
          (scenario_env\<lparr>ec2_wait_image_available := (\<lambda>i w. (False, w + 1))\<rparr>)
          ''ondemand'' None ''manual'' scenario_agent scenario_sys) = False \<and>
   trace (snd (snd (execute_switch
          (scenario_env\<lparr>ec2_wait_image_available := (\<lambda>i w. (False, w + 1))\<rparr>)
          ''ondemand'' None ''manual'' scenario_agent scenario_sys))) =
     [DescribeInstances ''i-A'',
      CreateImage ''i-A'' ''spot-optimizer-i-A-20240101-000000'',
      WaitImageAvailable ''ami-1''] \<and>
   \<not> switching_in_progress (fst (snd (execute_switch
          (scenario_env\<lparr>ec2_wait_image_available := (\<lambda>i w. (False, w + 1))\<rparr>)
          ''ondemand'' None ''manual'' scenario_agent scenario_sys)))"
proof -
  define env where
    "env = scenario_env\<lparr>ec2_wait_image_available := (\<lambda>i w. (False, w + 1))\<rparr>"
  define s1 where
    "s1 = snd (get_instance_details env (instance_id (config scenario_agent)) scenario_sys)"
  define s2 where
    "s2 = snd (create_ami_from_instance env (instance_id (config scenario_agent))
                 (''spot-optimizer-'' @ instance_id (config scenario_agent)) s1)"
  have h1: "\<not> switching_in_progress scenario_agent"
    by (simp add: scenario_defs)
  have h2: "get_instance_details env (instance_id (config scenario_agent)) scenario_sys =
              (Some (details_of inst_A), s1)"
    unfolding s1_def env_def
    by (simp add: get_instance_details_def perform_def scenario_env_def scenario_agent_def
          scenario_config_def scenario_sys_def)
  have h3: "create_ami_from_instance env (instance_id (config scenario_agent))
              (''spot-optimizer-'' @ instance_id (config scenario_agent)) s1 = (None, s2)"
    unfolding s2_def s1_def env_def
    by (simp add: create_ami_from_instance_def get_instance_details_def perform_def now_def
          Let_def scenario_env_def scenario_agent_def scenario_config_def scenario_sys_def)
  have tr: "trace s2 = [DescribeInstances ''i-A'',
      CreateImage ''i-A'' ''spot-optimizer-i-A-20240101-000000'',
      WaitImageAvailable ''ami-1'']"
    unfolding s2_def s1_def env_def
    by (simp add: create_ami_from_instance_def get_instance_details_def perform_def now_def
          Let_def scenario_env_def scenario_agent_def scenario_config_def scenario_sys_def)
  from image_failure_aborts [OF h1 h2 h3, of "''ondemand''" None "''manual''"]
  obtain a' where
    "execute_switch env ''ondemand'' None ''manual'' scenario_agent scenario_sys = (False, a', s2)"
    and "\<not> switching_in_progress a'"
    by blast
  with h1 h2 tr show ?thesis
    unfolding env_def by simp
qed

subsection \<open>Successful switches\<close>

lemma agent_get_ondemand_price_keeps:
  assumes "agent_get_ondemand_price env a s = (p, a', s')"
  shows "config a' = config a"
    and "current_mode a' = current_mode a"
    and "current_pool_id a' = current_pool_id a"
    and "switching_in_progress a' = switching_in_progress a"
  using assms
  by (auto simp: agent_get_ondemand_price_def split: prod.splits option.splits if_splits)

lemma agent_get_ondemand_price_auto_terminate:
  assumes "agent_get_ondemand_price env a s = (p, a', s')"
  shows "agent_get_ondemand_price env
           (a\<lparr>config := (config a)\<lparr>auto_terminate_enabled := b\<rparr>\<rparr>) s =
         (p, a'\<lparr>config := (config a')\<lparr>auto_terminate_enabled := b\<rparr>\<rparr>, s')"
  using assms
  by (auto simp: agent_get_ondemand_price_def cached_ondemand_price_def
           split: prod.splits option.splits if_splits)

lemma execute_switch_success:
  assumes "execute_switch env tm tp trig a s = (True, a', s')"
  obtains b where "\<not> switching_in_progress a"
    and "switch_steps env tm tp trig (a\<lparr>switching_in_progress := True\<rparr>) s = (True, b, s')"
    and "a' = b\<lparr>switching_in_progress := False\<rparr>"
  using assms
  by (auto simp: execute_switch_def split: if_splits prod.splits)

text \<open>
  Claim C6.  With \<^verbatim>\<open>auto_terminate_enabled\<close> false, a successful \<^verbatim>\<open>execute_switch\<close> sends
  no termination request, and the one report it sends has
  \<^verbatim>\<open>old_instance_terminated_at\<close> \<^verbatim>\<open>None\<close>.  The same call with the flag true, from the
  same state of the world, succeeds as well, and its report differs from this one in
  \<^verbatim>\<open>old_instance_terminated_at\<close> at most.
\<close>

theorem no_termination_when_disabled:
  assumes "\<not> auto_terminate_enabled (config a)"
    and "execute_switch env tm tp trig a s = (True, a', s')"
  shows "terminations (trace s') = terminations (trace s) \<and>
         (\<exists>r a2 s2 r2.
            reports (trace s') = reports (trace s) @ [r] \<and>
            mr_old_instance_terminated_at r = None \<and>
            execute_switch env tm tp trig
              (a\<lparr>config := (config a)\<lparr>auto_terminate_enabled := True\<rparr>\<rparr>) s = (True, a2, s2) \<and>
            reports (trace s2) = reports (trace s) @ [r2] \<and>
            r2\<lparr>mr_old_instance_terminated_at := None\<rparr> = r)"
proof -
  define A where "A = a\<lparr>switching_in_progress := True\<rparr>"
  define old where "old = instance_id (config a)"
  from execute_switch_success [OF assms(2)] obtain b where
    idle: "\<not> switching_in_progress a"
    and st: "switch_steps env tm tp trig A s = (True, b, s')"
    unfolding A_def by blast
  from switch_steps_success [OF st]
  obtain details s1 new_ami s2 t0 s3 nid s4 t1 s5 u s6 nd s7 nm np s8 odp a1 s9
    pools s10 t2 s11 t3 s12 ok
    where c1: "get_instance_details env (instance_id (config A)) s = (Some details, s1)"
      and c2: "create_ami_from_instance env (instance_id (config A))
                 (''spot-optimizer-'' @ instance_id (config A)) s1 = (Some new_ami, s2)"
      and c3: "now env s2 = (t0, s3)"
      and c4: "launch_instance env
                 (prepare_launch_config details new_ami (instance_id (config A)))
                 tm tp s3 = (Some nid, s4)"
      and c5: "now env s4 = (t1, s5)"
      and c6: "perform (Sleep 5) (time_sleep env 5) s5 = (u, s6)"
      and c7: "get_instance_details env nid s6 = (Some nd, s7)"
      and c8: "get_current_mode env nid s7 = ((nm, np), s8)"
      and c9: "agent_get_ondemand_price env A s8 = (odp, a1, s9)"
      and c10: "get_spot_prices env (instance_type (config a1)) s9 = (pools, s10)"
      and c11: "now env s10 = (t2, s11)"
      and c12: "terminate_old env (auto_terminate_enabled (config a1))
                  (instance_id (config A)) s11 = (t3, s12)"
      and c13: "report_switch_event env
                  (switch_record (config a1) (instance_id (config A)) (current_mode A)
                     (current_pool_id A) details nid nm np nd new_ami odp
                     (pool_price_for (current_mode A) (current_pool_id A) pools)
                     (pool_price_for (Some nm) np pools) t0 t1 t2 t3 trig) s12 = (ok, s')"
      and ne: "new_ami \<noteq> []" "nid \<noteq> []"
    by metis
  define r where
    "r = switch_record (config a1) (instance_id (config A)) (current_mode A)
           (current_pool_id A) details nid nm np nd new_ami odp
           (pool_price_for (current_mode A) (current_pool_id A) pools)
           (pool_price_for (Some nm) np pools) t0 t1 t2 None trig"
  have cfg: "config a1 = config A"
    using agent_get_ondemand_price_keeps(1) [OF c9] .
  have off: "\<not> auto_terminate_enabled (config a1)"
    using cfg assms(1) by (simp add: A_def)
  have t3: "t3 = None" and s12: "s12 = s11"
    using c12 off by (simp_all add: terminate_old_def)
  have upto: "terminations (trace s11) = terminations (trace s)"
             "reports (trace s11) = reports (trace s)"
    using get_instance_details_calls [OF c1] create_ami_from_instance_calls(2,4) [OF c2]
      now_calls [OF c3] launch_instance_calls(2,4) [OF c4] now_calls [OF c5]
      perform_calls [OF c6] get_instance_details_calls [OF c7]
      get_current_mode_calls [OF c8] agent_get_ondemand_price_calls(2,4) [OF c9]
      get_spot_prices_calls(2,4) [OF c10] now_calls [OF c11]
    by (simp_all add: trace_append)
  have rep: "trace s' = trace s11 @ [SwitchReport r]"
    using report_switch_event_calls [OF c13] by (simp add: r_def t3 s12)
  have goal1: "terminations (trace s') = terminations (trace s)"
    using rep upto by (simp add: trace_append)
  have goal2: "reports (trace s') = reports (trace s) @ [r]"
    using rep upto by (simp add: trace_append)
  have goal3: "mr_old_instance_terminated_at r = None"
    by (simp add: r_def switch_record_def)
  \<comment> \<open>the same call with the flag set\<close>
  define a1' where "a1' = a1\<lparr>config := (config a1)\<lparr>auto_terminate_enabled := True\<rparr>\<rparr>"
  define B where
    "B = (a\<lparr>config := (config a)\<lparr>auto_terminate_enabled := True\<rparr>\<rparr>)
           \<lparr>switching_in_progress := True\<rparr>"
  have Beq: "B = A\<lparr>config := (config A)\<lparr>auto_terminate_enabled := True\<rparr>\<rparr>"
    by (simp add: B_def A_def)
  obtain t3' s12' where d12:
    "terminate_old env True (instance_id (config A)) s11 = (t3', s12')"
    by (cases "terminate_old env True (instance_id (config A)) s11") blast
  define r2 where
    "r2 = switch_record (config a1') (instance_id (config A)) (current_mode A)
           (current_pool_id A) details nid nm np nd new_ami odp
           (pool_price_for (current_mode A) (current_pool_id A) pools)
           (pool_price_for (Some nm) np pools) t0 t1 t2 t3' trig"
  obtain ok' s13' where d13: "report_switch_event env r2 s12' = (ok', s13')"
    by (cases "report_switch_event env r2 s12'") blast
  have d9: "agent_get_ondemand_price env B s8 = (odp, a1', s9)"
    unfolding Beq a1'_def by (rule agent_get_ondemand_price_auto_terminate [OF c9])
  have stB: "switch_steps env tm tp trig B s =
               (True, rebind a1' nid nd nm np, s13')"
    unfolding switch_steps_def Let_def
    using c1 c2 c3 c4 c5 c6 c7 c8 d9 c10 c11 d12 d13 ne
    by (simp add: Beq a1'_def truthy_def r2_def)
  have exB: "execute_switch env tm tp trig
               (a\<lparr>config := (config a)\<lparr>auto_terminate_enabled := True\<rparr>\<rparr>) s =
             (True, (rebind a1' nid nd nm np)\<lparr>switching_in_progress := False\<rparr>, s13')"
    using stB idle by (simp add: execute_switch_def B_def)
  have repB: "reports (trace s13') = reports (trace s) @ [r2]"
    using report_switch_event_calls [OF d13] terminate_old_calls(2) [OF d12] upto(2)
    by (simp add: trace_append)
  have same: "r2\<lparr>mr_old_instance_terminated_at := None\<rparr> = r"
    by (simp add: r2_def r_def switch_record_def a1'_def)
  show ?thesis
    using goal1 goal2 goal3 exB repB same by blast
qed

text \<open>
  Scenario 3: the world of scenario 1 with \<^verbatim>\<open>auto_terminate_enabled\<close> false.  The switch
  succeeds, no termination is requested, and the report carries no termination time.
\<close>

theorem no_termination_when_disabled_witness:
  "\<not> auto_terminate_enabled
       (config (scenario_agent\<lparr>config := scenario_config\<lparr>auto_terminate_enabled := False\<rparr>\<rparr>)) \<and>
   fst (execute_switch scenario_env ''ondemand'' None ''manual''
          (scenario_agent\<lparr>config := scenario_config\<lparr>auto_terminate_enabled := False\<rparr>\<rparr>)
          scenario_sys) = True \<and>
   terminations (trace (snd (snd (execute_switch scenario_env ''ondemand'' None ''manual''
          (scenario_agent\<lparr>config := scenario_config\<lparr>auto_terminate_enabled := False\<rparr>\<rparr>)
          scenario_sys)))) = [] \<and>
   map mr_old_instance_terminated_at
     (reports (trace (snd (snd (execute_switch scenario_env ''ondemand'' None ''manual''
          (scenario_agent\<lparr>config := scenario_config\<lparr>auto_terminate_enabled := False\<rparr>\<rparr>)
          scenario_sys))))) = [None]"
proof -
  define a where
    "a = scenario_agent\<lparr>config := scenario_config\<lparr>auto_terminate_enabled := False\<rparr>\<rparr>"
  define res where "res = execute_switch scenario_env ''ondemand'' None ''manual'' a scenario_sys"
  have h: "\<not> auto_terminate_enabled (config a)"
    by (simp add: a_def)
  have f: "fst res = True"
    unfolding res_def a_def by (simp add: model_defs scenario_defs Let_def)
  have e: "execute_switch scenario_env ''ondemand'' None ''manual'' a scenario_sys =
             (True, fst (snd res), snd (snd res))"
    using f by (simp add: res_def prod_eq_iff)
  from no_termination_when_disabled [OF h e] obtain r where
    t: "terminations (trace (snd (snd res))) = terminations (trace scenario_sys)"
    and r: "reports (trace (snd (snd res))) = reports (trace scenario_sys) @ [r]"
           "mr_old_instance_terminated_at r = None"
    by blast
  have "terminations (trace (snd (snd res))) = []"
    using t by (simp add: scenario_sys_def)
  moreover have "map mr_old_instance_terminated_at (reports (trace (snd (snd res)))) = [None]"
    using r by (simp add: scenario_sys_def)
  ultimately show ?thesis
    using h f unfolding res_def a_def by simp
qed

subsection \<open>The clock along a switch\<close>

lemma monotone_clockD:
  assumes "monotone_clock env"
  shows "fst (utcnow env w) \<le> fst (utcnow env (snd (utcnow env w)))"
    and "fst (utcnow env w) \<le> fst (utcnow env (snd (time_sleep env n w)))"
    and "fst (utcnow env w) \<le> fst (utcnow env (snd (ec2_describe_instances env i w)))"
    and "fst (utcnow env w) \<le> fst (utcnow env (snd (ec2_run_instances env p w)))"
    and "fst (utcnow env w) \<le> fst (utcnow env (snd (ec2_wait_instance_running env i w)))"
    and "fst (utcnow env w) \<le> fst (utcnow env (snd (ec2_terminate_instances env i w)))"
    and "fst (utcnow env w)
           \<le> fst (utcnow env (snd (ec2_describe_spot_price_history env i t w)))"
    and "fst (utcnow env w) \<le> fst (utcnow env (snd (pricing_get_products env i l w)))"
  using assms unfolding monotone_clock_def by simp_all

lemma now_reads:
  assumes "now env s = (t, s')"
  shows "t = clock env s"
  using assms by (auto simp: now_def clock_def split: prod.splits)

lemma now_clock:
  assumes "now env s = (t, s')" and "monotone_clock env"
  shows "clock env s \<le> clock env s'"
proof -
  have "fst (utcnow env (world s)) \<le> fst (utcnow env (snd (utcnow env (world s))))"
    using monotone_clockD(1) [OF assms(2)] .
  with assms(1) show ?thesis
    by (auto simp: now_def clock_def split: prod.splits)
qed

lemma perform_clock:
  assumes "perform c f s = (r, s')"
    and "\<And>w. fst (utcnow env w) \<le> fst (utcnow env (snd (f w)))"
  shows "clock env s \<le> clock env s'"
proof -
  have "fst (utcnow env (world s)) \<le> fst (utcnow env (snd (f (world s))))"
    using assms(2) .
  with assms(1) show ?thesis
    by (auto simp: perform_def clock_def split: prod.splits)
qed

lemma get_instance_details_clock:
  assumes "get_instance_details env i s = (r, s')" and "monotone_clock env"
  shows "clock env s \<le> clock env s'"
proof -
  have m: "\<And>w. fst (utcnow env w)
                           \<le> fst (utcnow env (snd (ec2_describe_instances env i w)))"
    using monotone_clockD(3) [OF assms(2)] .
  from assms(1) obtain r0 where
    "perform (DescribeInstances i) (ec2_describe_instances env i) s = (r0, s')"
    by (auto simp: get_instance_details_def split: prod.splits option.splits list.splits)
  from perform_clock [OF this m] show ?thesis .
qed

lemma get_current_mode_clock:
  assumes "get_current_mode env i s = (r, s')" and "monotone_clock env"
  shows "clock env s \<le> clock env s'"
proof -
  from assms(1) obtain r0 where "get_instance_details env i s = (r0, s')"
    by (auto simp: get_current_mode_def split: prod.splits option.splits if_splits)
  from get_instance_details_clock [OF this assms(2)] show ?thesis .
qed

lemma launch_instance_clock:
  assumes "launch_instance env cfg tm tp s = (r, s')" and "monotone_clock env"
  shows "clock env s \<le> clock env s'"
proof -
  obtain t s0 where n: "now env s = (t, s0)"
    by (cases "now env s") blast
  define lp where "lp = build_launch_params cfg tm (isoformat env t)"
  obtain r1 s1 where p1: "perform (RunInstances lp) (ec2_run_instances env lp) s0 = (r1, s1)"
    by (cases "perform (RunInstances lp) (ec2_run_instances env lp) s0") blast
  have m1: "\<And>w. fst (utcnow env w) \<le> fst (utcnow env (snd (ec2_run_instances env lp w)))"
    using monotone_clockD(4) [OF assms(2)] .
  have k0: "clock env s \<le> clock env s0" using now_clock [OF n assms(2)] .
  have k1: "clock env s0 \<le> clock env s1" using perform_clock [OF p1 m1] .
  show ?thesis
  proof (cases "s' = s1")
    case True
    with k0 k1 show ?thesis by simp
  next
    case False
    with assms(1) n p1 obtain nid r2 where
      p2: "perform (WaitInstanceRunning nid) (ec2_wait_instance_running env nid) s1 = (r2, s')"
      by (auto simp: launch_instance_def Let_def lp_def
               split: prod.splits option.splits list.splits bool.splits)
    have m2: "\<And>w. fst (utcnow env w)
                                \<le> fst (utcnow env (snd (ec2_wait_instance_running env nid w)))"
    using monotone_clockD(5) [OF assms(2)] .
    from perform_clock [OF p2 m2] k0 k1 show ?thesis by simp
  qed
qed

lemma get_ondemand_price_clock:
  assumes "get_ondemand_price env rg it s = (r, s')" and "monotone_clock env"
  shows "clock env s \<le> clock env s'"
proof -
  define l where "l = (case map_of region_map rg of None \<Rightarrow> rg | Some l \<Rightarrow> l)"
  have m: "\<And>w. fst (utcnow env w)
                           \<le> fst (utcnow env (snd (pricing_get_products env it l w)))"
    using monotone_clockD(8) [OF assms(2)] .
  from assms(1) obtain r0 where
    "perform (GetProducts it l) (pricing_get_products env it l) s = (r0, s')"
    by (auto simp: get_ondemand_price_def Let_def l_def
             split: prod.splits option.splits list.splits)
  from perform_clock [OF this m] show ?thesis .
qed

lemma cached_ondemand_price_clock:
  assumes "cached_ondemand_price env a s = (r, s')" and "monotone_clock env"
  shows "clock env s \<le> clock env s'"
  using assms
  by (auto simp: cached_ondemand_price_def dest: now_clock
           split: prod.splits option.splits if_splits)

lemma agent_get_ondemand_price_clock:
  assumes "agent_get_ondemand_price env a s = (p, a', s')" and "monotone_clock env"
  shows "clock env s \<le> clock env s'"
proof -
  obtain c s0 where c: "cached_ondemand_price env a s = (c, s0)"
    by (cases "cached_ondemand_price env a s") blast
  have k0: "clock env s \<le> clock env s0"
    using cached_ondemand_price_clock [OF c assms(2)] .
  show ?thesis
  proof (cases c)
    case (Some q)
    with assms(1) c have "s' = s0"
      by (simp add: agent_get_ondemand_price_def)
    with k0 show ?thesis by simp
  next
    case None
    obtain f s1 where g: "get_ondemand_price env (region (config a)) (instance_type (config a)) s0
                            = (f, s1)"
      by (cases "get_ondemand_price env (region (config a)) (instance_type (config a)) s0") blast
    have k1: "clock env s0 \<le> clock env s1"
      using get_ondemand_price_clock [OF g assms(2)] .
    show ?thesis
    proof (cases "s' = s1")
      case True
      with k0 k1 show ?thesis by simp
    next
      case False
      with assms(1) c None g obtain t where "now env s1 = (t, s')"
        by (auto simp: agent_get_ondemand_price_def split: prod.splits option.splits if_splits)
      from now_clock [OF this assms(2)] k0 k1 show ?thesis by simp
    qed
  qed
qed

lemma get_spot_prices_clock:
  assumes "get_spot_prices env it s = (r, s')" and "monotone_clock env"
  shows "clock env s \<le> clock env s'"
proof -
  obtain t s0 where n: "now env s = (t, s0)"
    by (cases "now env s") blast
  have m: "\<And>w. fst (utcnow env w) \<le> fst (utcnow env
           (snd (ec2_describe_spot_price_history env it (t - 300000000) w)))"
    using monotone_clockD(7) [OF assms(2)] .
  from assms(1) n obtain r0 where
    "perform (DescribeSpotPriceHistory it (t - 300000000))
       (ec2_describe_spot_price_history env it (t - 300000000)) s0 = (r0, s')"
    by (auto simp: get_spot_prices_def spot_price_history_def
             split: prod.splits option.splits)
  from perform_clock [OF this m] now_clock [OF n assms(2)] show ?thesis by simp
qed

lemma terminate_old_clock:
  assumes "terminate_old env flag old s = (Some t, s')" and "monotone_clock env"
  shows "clock env s \<le> t"
proof -
  have m: "\<And>w. fst (utcnow env w)
                           \<le> fst (utcnow env (snd (ec2_terminate_instances env old w)))"
    using monotone_clockD(6) [OF assms(2)] .
  from assms(1) obtain s1 where
    p: "perform (TerminateInstances old) (ec2_terminate_instances env old) s = (True, s1)"
    and n: "now env s1 = (t, s')"
    by (auto simp: terminate_old_def terminate_instance_def
             split: prod.splits bool.splits if_splits)
  from perform_clock [OF p m] now_reads [OF n] show ?thesis by simp
qed

text \<open>
  Claim C4 as amended.  When no operation of the world sets the clock back, the report of a
  successful \<^verbatim>\<open>execute_switch\<close> has \<^verbatim>\<open>switch_initiated_at\<close> \<open>\<le>\<close>
  \<^verbatim>\<open>new_instance_ready_at\<close> \<open>\<le>\<close> \<^verbatim>\<open>traffic_switched_at\<close>, and
  \<^verbatim>\<open>traffic_switched_at\<close> \<open>\<le>\<close> \<^verbatim>\<open>old_instance_terminated_at\<close> when the latter is present.
\<close>

theorem report_timestamps_ordered:
  assumes "monotone_clock env"
    and "execute_switch env tm tp trig a s = (True, a', s')"
  shows "\<exists>r. reports (trace s') = reports (trace s) @ [r] \<and>
           mr_switch_initiated_at r \<le> mr_new_instance_ready_at r \<and>
           mr_new_instance_ready_at r \<le> mr_traffic_switched_at r \<and>
           (\<forall>t. mr_old_instance_terminated_at r = Some t \<longrightarrow> mr_traffic_switched_at r \<le> t)"
proof -
  note m = assms(1)
  define A where "A = a\<lparr>switching_in_progress := True\<rparr>"
  from execute_switch_success [OF assms(2)] obtain b where
    st: "switch_steps env tm tp trig A s = (True, b, s')"
    unfolding A_def by blast
  from switch_steps_success [OF st]
  obtain details s1 new_ami s2 t0 s3 nid s4 t1 s5 u s6 nd s7 nm np s8 odp a1 s9
    pools s10 t2 s11 t3 s12 ok
    where c1: "get_instance_details env (instance_id (config A)) s = (Some details, s1)"
      and c2: "create_ami_from_instance env (instance_id (config A))
                 (''spot-optimizer-'' @ instance_id (config A)) s1 = (Some new_ami, s2)"
      and c3: "now env s2 = (t0, s3)"
      and c4: "launch_instance env
                 (prepare_launch_config details new_ami (instance_id (config A)))
                 tm tp s3 = (Some nid, s4)"
      and c5: "now env s4 = (t1, s5)"
      and c6: "perform (Sleep 5) (time_sleep env 5) s5 = (u, s6)"
      and c7: "get_instance_details env nid s6 = (Some nd, s7)"
      and c8: "get_current_mode env nid s7 = ((nm, np), s8)"
      and c9: "agent_get_ondemand_price env A s8 = (odp, a1, s9)"
      and c10: "get_spot_prices env (instance_type (config a1)) s9 = (pools, s10)"
      and c11: "now env s10 = (t2, s11)"
      and c12: "terminate_old env (auto_terminate_enabled (config a1))
                  (instance_id (config A)) s11 = (t3, s12)"
      and c13: "report_switch_event env
                  (switch_record (config a1) (instance_id (config A)) (current_mode A)
                     (current_pool_id A) details nid nm np nd new_ami odp
                     (pool_price_for (current_mode A) (current_pool_id A) pools)
                     (pool_price_for (Some nm) np pools) t0 t1 t2 t3 trig) s12 = (ok, s')"
    by metis
  define r where
    "r = switch_record (config a1) (instance_id (config A)) (current_mode A)
           (current_pool_id A) details nid nm np nd new_ami odp
           (pool_price_for (current_mode A) (current_pool_id A) pools)
           (pool_price_for (Some nm) np pools) t0 t1 t2 t3 trig"
  have rep: "reports (trace s') = reports (trace s) @ [r]"
    using get_instance_details_calls [OF c1] create_ami_from_instance_calls(2) [OF c2]
      now_calls [OF c3] launch_instance_calls(2) [OF c4] now_calls [OF c5]
      perform_calls [OF c6] get_instance_details_calls [OF c7]
      get_current_mode_calls [OF c8] agent_get_ondemand_price_calls(2) [OF c9]
      get_spot_prices_calls(2) [OF c10] now_calls [OF c11]
      terminate_old_calls(2) [OF c12] report_switch_event_calls [OF c13]
    by (simp add: trace_append r_def)
  have sl: "\<And>w. fst (utcnow env w) \<le> fst (utcnow env (snd (time_sleep env 5 w)))"
    using monotone_clockD(2) [OF m] .
  have "t0 = clock env s2" using now_reads [OF c3] .
  moreover have "clock env s2 \<le> clock env s3" using now_clock [OF c3 m] .
  moreover have "clock env s3 \<le> clock env s4" using launch_instance_clock [OF c4 m] .
  moreover have "t1 = clock env s4" using now_reads [OF c5] .
  ultimately have first: "t0 \<le> t1" by simp
  have "t1 = clock env s4" using now_reads [OF c5] .
  moreover have "clock env s4 \<le> clock env s5" using now_clock [OF c5 m] .
  moreover have "clock env s5 \<le> clock env s6" using perform_clock [OF c6 sl] .
  moreover have "clock env s6 \<le> clock env s7" using get_instance_details_clock [OF c7 m] .
  moreover have "clock env s7 \<le> clock env s8" using get_current_mode_clock [OF c8 m] .
  moreover have "clock env s8 \<le> clock env s9" using agent_get_ondemand_price_clock [OF c9 m] .
  moreover have "clock env s9 \<le> clock env s10" using get_spot_prices_clock [OF c10 m] .
  moreover have "t2 = clock env s10" using now_reads [OF c11] .
  ultimately have second: "t1 \<le> t2" by simp
  have third: "t2 \<le> t" if "t3 = Some t" for t
  proof -
    have "t2 = clock env s10" using now_reads [OF c11] .
    moreover have "clock env s10 \<le> clock env s11" using now_clock [OF c11 m] .
    moreover have "clock env s11 \<le> t" using terminate_old_clock [OF c12 [unfolded that] m] .
    ultimately show ?thesis by simp
  qed
  have "mr_switch_initiated_at r \<le> mr_new_instance_ready_at r"
    using first by (simp add: r_def switch_record_def)
  moreover have "mr_new_instance_ready_at r \<le> mr_traffic_switched_at r"
    using second by (simp add: r_def switch_record_def)
  moreover have "\<forall>t. mr_old_instance_terminated_at r = Some t \<longrightarrow> mr_traffic_switched_at r \<le> t"
    using third by (simp add: r_def switch_record_def)
  ultimately show ?thesis using rep by blast
qed

lemma scenario_clock_monotone: "monotone_clock scenario_env"
  by (simp add: monotone_clock_def scenario_env_def)

text \<open>
  Scenario 1: every request takes a microsecond and the sleep five seconds, so the
  clock is monotone; the switch succeeds and its report has the four timestamps in
  order, the last one present.
\<close>

theorem report_timestamps_ordered_witness:
  "monotone_clock scenario_env \<and>
   fst (execute_switch scenario_env ''ondemand'' None ''manual'' scenario_agent scenario_sys)
     = True \<and>
   (\<exists>r t. reports (trace (snd (snd (execute_switch scenario_env ''ondemand'' None ''manual''
                                     scenario_agent scenario_sys)))) = [r] \<and>
      mr_switch_initiated_at r \<le> mr_new_instance_ready_at r \<and>
      mr_new_instance_ready_at r \<le> mr_traffic_switched_at r \<and>
      mr_old_instance_terminated_at r = Some t \<and>
      mr_traffic_switched_at r \<le> t)"
proof -
  define res where
    "res = execute_switch scenario_env ''ondemand'' None ''manual'' scenario_agent scenario_sys"
  have f: "fst res = True"
    unfolding res_def by (simp add: model_defs scenario_defs Let_def)
  have e: "execute_switch scenario_env ''ondemand'' None ''manual'' scenario_agent scenario_sys =
             (True, fst (snd res), snd (snd res))"
    using f by (simp add: res_def prod_eq_iff)
  have n: "map mr_old_instance_terminated_at (reports (trace (snd (snd res)))) \<noteq> [None]"
    unfolding res_def by (simp add: model_defs scenario_defs Let_def)
  from report_timestamps_ordered [OF scenario_clock_monotone e] obtain r where
    r: "reports (trace (snd (snd res))) = reports (trace scenario_sys) @ [r]"
       "mr_switch_initiated_at r \<le> mr_new_instance_ready_at r"
       "mr_new_instance_ready_at r \<le> mr_traffic_switched_at r"
       "\<forall>t. mr_old_instance_terminated_at r = Some t \<longrightarrow> mr_traffic_switched_at r \<le> t"
    by blast
  have r1: "reports (trace (snd (snd res))) = [r]"
    using r(1) by (simp add: scenario_sys_def)
  with n obtain t where t: "mr_old_instance_terminated_at r = Some t"
    by auto
  with r(4) have "mr_traffic_switched_at r \<le> t" by blast
  with r1 r(2,3) t scenario_clock_monotone f show ?thesis
    unfolding res_def by blast
qed

text \<open>
  Claim C4 fails when the clock is set back.  The world of scenario 1 with a clock
  that runs backwards (the reading is the negated count of the requests): the switch
  succeeds and its report has \<^verbatim>\<open>switch_initiated_at\<close> = -4,
  \<^verbatim>\<open>new_instance_ready_at\<close> = -8, \<^verbatim>\<open>traffic_switched_at\<close> = -5000015 and
  \<^verbatim>\<open>old_instance_terminated_at\<close> = -5000017.
\<close>

theorem backward_clock_unordered_timestamps:
  "fst (execute_switch (scenario_env\<lparr>utcnow := (\<lambda>w. (- w, w + 1))\<rparr>)
          ''ondemand'' None ''manual'' scenario_agent scenario_sys) = True \<and>
   map (\<lambda>r. (mr_switch_initiated_at r, mr_new_instance_ready_at r,
             mr_traffic_switched_at r, mr_old_instance_terminated_at r))
     (reports (trace (snd (snd (execute_switch
        (scenario_env\<lparr>utcnow := (\<lambda>w. (- w, w + 1))\<rparr>)
        ''ondemand'' None ''manual'' scenario_agent scenario_sys))))) =
     [(- 4, - 8, - 5000015, Some (- 5000017))] \<and>
   \<not> ((- 4 :: int) \<le> - 8)"
  by (simp add: model_defs scenario_defs Let_def)

subsection \<open>The requests of one command\<close>

lemma switch_steps_acknowledged:
  assumes "switch_steps env tm tp trig a s = (r, a', s')"
  shows "acknowledged (trace s') = acknowledged (trace s)"
  using assms
  unfolding switch_steps_def Let_def
  by (auto simp: trace_append
           dest!: get_instance_details_calls create_ami_from_instance_calls(3) now_calls
             launch_instance_calls(3) perform_calls get_current_mode_calls
             agent_get_ondemand_price_calls(3) get_spot_prices_calls(3)
             terminate_old_calls(3) report_switch_event_calls
           split: prod.splits option.splits if_splits)

lemma execute_switch_acknowledged:
  assumes "execute_switch env tm tp trig a s = (r, a', s')"
  shows "acknowledged (trace s') = acknowledged (trace s)"
  using assms
  by (auto simp: execute_switch_def dest: switch_steps_acknowledged
           split: if_splits prod.splits)

lemma market_options_of_launch:
  "lp_InstanceMarketOptions (build_launch_params cfg tm c) =
     (if tm = ''spot''
      then Some \<lparr>mo_MarketType = ''spot'', mo_SpotInstanceType = ''persistent'',
                 mo_InstanceInterruptionBehavior = ''stop''\<rparr>
      else None)"
  by (simp add: build_launch_params_def)

lemma switch_steps_launches:
  assumes "switch_steps env tm tp trig a s = (r, a', s')"
  shows "map lp_InstanceMarketOptions (launches (trace s')) =
           map lp_InstanceMarketOptions (launches (trace s)) \<or>
         map lp_InstanceMarketOptions (launches (trace s')) =
           map lp_InstanceMarketOptions (launches (trace s)) @
           [if tm = ''spot''
            then Some \<lparr>mo_MarketType = ''spot'', mo_SpotInstanceType = ''persistent'',
                       mo_InstanceInterruptionBehavior = ''stop''\<rparr>
            else None]"
  using assms
  unfolding switch_steps_def Let_def
  by (auto simp: trace_append market_options_of_launch
           dest!: get_instance_details_calls create_ami_from_instance_calls(1) now_calls
             launch_instance_calls(1) perform_calls get_current_mode_calls
             agent_get_ondemand_price_calls(1) get_spot_prices_calls(1)
             terminate_old_calls(1) report_switch_event_calls
           split: prod.splits option.splits if_splits)

lemma execute_switch_launches:
  assumes "execute_switch env tm tp trig a s = (r, a', s')"
  shows "map lp_InstanceMarketOptions (launches (trace s')) =
           map lp_InstanceMarketOptions (launches (trace s)) \<or>
         map lp_InstanceMarketOptions (launches (trace s')) =
           map lp_InstanceMarketOptions (launches (trace s)) @
           [if tm = ''spot''
            then Some \<lparr>mo_MarketType = ''spot'', mo_SpotInstanceType = ''persistent'',
                       mo_InstanceInterruptionBehavior = ''stop''\<rparr>
            else None]"
proof (cases "switching_in_progress a")
  case True
  with assms show ?thesis by (simp add: execute_switch_def)
next
  case False
  with assms obtain b where
    "switch_steps env tm tp trig (a\<lparr>switching_in_progress := True\<rparr>) s = (r, b, s')"
    by (auto simp: execute_switch_def split: prod.splits)
  from switch_steps_launches [OF this] show ?thesis .
qed

text \<open>
  Claim C5.  A pending command addressed to the agent's instance drives at most one
  launch request, and that request carries the spot market options exactly when the
  command's \<^verbatim>\<open>target_mode\<close> is \<^verbatim>\<open>pool\<close> or \<^verbatim>\<open>spot\<close>; for \<^verbatim>\<open>ondemand\<close> (and any other
  token) it carries none.  The statement reads the market options of the launch
  requests recorded in the trace before and after the command.
\<close>

theorem legacy_token_normalization:
  assumes "process_command env cmd a s = (a', s')"
  shows "map lp_InstanceMarketOptions (launches (trace s')) =
           map lp_InstanceMarketOptions (launches (trace s)) \<or>
         map lp_InstanceMarketOptions (launches (trace s')) =
           map lp_InstanceMarketOptions (launches (trace s)) @
           [if cmd_target_mode cmd = ''pool'' \<or> cmd_target_mode cmd = ''spot''
            then Some \<lparr>mo_MarketType = ''spot'', mo_SpotInstanceType = ''persistent'',
                       mo_InstanceInterruptionBehavior = ''stop''\<rparr>
            else None]"
proof (cases "cmd_instance_id cmd = instance_id (config a)")
  case False
  with assms show ?thesis by (simp add: process_command_def)
next
  case True
  define tm where
    "tm = (if cmd_target_mode cmd = ''pool'' then ''spot'' else cmd_target_mode cmd)"
  obtain r a1 s1 where
    ex: "execute_switch env tm (cmd_target_pool_id cmd) ''manual'' a s = (r, a1, s1)"
    by (cases "execute_switch env tm (cmd_target_pool_id cmd) ''manual'' a s") auto
  obtain ok s2 where mk: "mark_command_executed env (cmd_id cmd) s1 = (ok, s2)"
    by (cases "mark_command_executed env (cmd_id cmd) s1") auto
  from assms True ex mk have s': "s' = s2"
    by (simp add: process_command_def tm_def Let_def)
  have l: "launches (trace s') = launches (trace s1)"
    using mark_command_executed_calls [OF mk] s' by (simp add: trace_append)
  have tm: "(tm = ''spot'') = (cmd_target_mode cmd = ''pool'' \<or> cmd_target_mode cmd = ''spot'')"
    by (simp add: tm_def)
  from execute_switch_launches [OF ex] l tm show ?thesis
    by simp
qed

text \<open>
  Scenario 2: the command carries the legacy token \<^verbatim>\<open>pool\<close>.  One instance is
  launched, with the spot market options.
\<close>

theorem legacy_token_normalization_witness:
  "map lp_InstanceMarketOptions
     (launches (trace (snd (process_command scenario_env
        \<lparr>cmd_id = 8, cmd_instance_id = ''i-A'', cmd_target_mode = ''pool'',
         cmd_target_pool_id = Some ''m5.large_apsouth1b''\<rparr> scenario_agent scenario_sys)))) =
   [Some \<lparr>mo_MarketType = ''spot'', mo_SpotInstanceType = ''persistent'',
          mo_InstanceInterruptionBehavior = ''stop''\<rparr>]"
proof -
  define cmd where
    "cmd = \<lparr>cmd_id = 8, cmd_instance_id = ''i-A'', cmd_target_mode = ''pool'',
            cmd_target_pool_id = Some ''m5.large_apsouth1b''\<rparr>"
  define res where "res = process_command scenario_env cmd scenario_agent scenario_sys"
  have e: "process_command scenario_env cmd scenario_agent scenario_sys = (fst res, snd res)"
    by (simp add: res_def)
  have n: "length (launches (trace (snd res))) = 1"
    unfolding res_def cmd_def by (simp add: model_defs scenario_defs Let_def)
  have t: "cmd_target_mode cmd = ''pool''"
    by (simp add: cmd_def)
  have z: "launches (trace scenario_sys) = []"
    by (simp add: scenario_sys_def)
  from legacy_token_normalization [OF e] n t z
  have "map lp_InstanceMarketOptions (launches (trace (snd res))) =
          [Some \<lparr>mo_MarketType = ''spot'', mo_SpotInstanceType = ''persistent'',
                 mo_InstanceInterruptionBehavior = ''stop''\<rparr>]"
    by auto
  then show ?thesis unfolding res_def cmd_def .
qed

subsection \<open>Acknowledgement of commands\<close>

lemma process_command_acknowledged:
  assumes "process_command env cmd a s = (a', s')"
  shows "acknowledged (trace s') =
           acknowledged (trace s) @
           (if cmd_instance_id cmd = instance_id (config a) then [cmd_id cmd] else [])"
proof (cases "cmd_instance_id cmd = instance_id (config a)")
  case False
  with assms show ?thesis by (simp add: process_command_def)
next
  case True
  define tm where
    "tm = (if cmd_target_mode cmd = ''pool'' then ''spot'' else cmd_target_mode cmd)"
  obtain r a1 s1 where
    ex: "execute_switch env tm (cmd_target_pool_id cmd) ''manual'' a s = (r, a1, s1)"
    by (cases "execute_switch env tm (cmd_target_pool_id cmd) ''manual'' a s") auto
  obtain ok s2 where mk: "mark_command_executed env (cmd_id cmd) s1 = (ok, s2)"
    by (cases "mark_command_executed env (cmd_id cmd) s1") auto
  from assms True ex mk have s': "s' = s2"
    by (simp add: process_command_def tm_def Let_def)
  from mark_command_executed_calls [OF mk] execute_switch_acknowledged [OF ex] s' True
  show ?thesis by (simp add: trace_append)
qed

lemma process_commands_acknowledged:
  assumes "process_commands env cmds a s = (a', s')"
  shows "\<exists>new. acknowledged (trace s') = acknowledged (trace s) @ new \<and>
               subseq new (map cmd_id cmds)"
  using assms
proof (induction cmds arbitrary: a s)
  case Nil
  then show ?case by simp
next
  case (Cons cmd cmds)
  obtain a1 s1 where p: "process_command env cmd a s = (a1, s1)"
    by (cases "process_command env cmd a s") auto
  with Cons.prems have "process_commands env cmds a1 s1 = (a', s')"
    by simp
  from Cons.IH [OF this] obtain new where
    n: "acknowledged (trace s') = acknowledged (trace s1) @ new"
       "subseq new (map cmd_id cmds)"
    by blast
  show ?case
  proof (cases "cmd_instance_id cmd = instance_id (config a)")
    case True
    with process_command_acknowledged [OF p] n
    have "acknowledged (trace s') = acknowledged (trace s) @ (cmd_id cmd # new)"
      and "subseq (cmd_id cmd # new) (map cmd_id (cmd # cmds))"
      by simp_all
    then show ?thesis by blast
  next
    case False
    with process_command_acknowledged [OF p] n
    have "acknowledged (trace s') = acknowledged (trace s) @ new"
      and "subseq new (map cmd_id (cmd # cmds))"
      by (simp_all add: list_emb_Cons)
    then show ?thesis by blast
  qed
qed

text \<open>
  Claim C1 fails for a command addressed to another instance.  Scenario 4: the agent
  describes \<^verbatim>\<open>i-A\<close> and the controller returns the command 9 for \<^verbatim>\<open>i-OLD\<close>.  The tick
  fetches the commands and sends nothing else: the command is not acknowledged.
\<close>

theorem stale_command_not_acknowledged:
  "fst (get_pending_commands
          (scenario_env\<lparr>http_pending_commands :=
             (\<lambda>w. (Some [\<lparr>cmd_id = 9, cmd_instance_id = ''i-OLD'',
                           cmd_target_mode = ''ondemand'', cmd_target_pool_id = None\<rparr>],
                    w + 1))\<rparr>) scenario_sys) =
     [\<lparr>cmd_id = 9, cmd_instance_id = ''i-OLD'', cmd_target_mode = ''ondemand'',
       cmd_target_pool_id = None\<rparr>] \<and>
   trace (snd (command_processor_tick
          (scenario_env\<lparr>http_pending_commands :=
             (\<lambda>w. (Some [\<lparr>cmd_id = 9, cmd_instance_id = ''i-OLD'',
                           cmd_target_mode = ''ondemand'', cmd_target_pool_id = None\<rparr>],
                    w + 1))\<rparr>) scenario_agent scenario_sys)) = [GetPendingCommands] \<and>
   count_list (acknowledged (trace (snd (command_processor_tick
          (scenario_env\<lparr>http_pending_commands :=
             (\<lambda>w. (Some [\<lparr>cmd_id = 9, cmd_instance_id = ''i-OLD'',
                           cmd_target_mode = ''ondemand'', cmd_target_pool_id = None\<rparr>],
                    w + 1))\<rparr>) scenario_agent scenario_sys)))) 9 = 0"
  by (simp add: command_processor_tick_def get_pending_commands_def process_command_def
        perform_def scenario_defs)

lemma process_commands_addressed:
  assumes "process_commands env cmds a s = (a', s')"
  shows "acknowledged (trace s') =
           acknowledged (trace s) @ addressed_when_processed env cmds a s"
  using assms
proof (induction cmds arbitrary: a s)
  case Nil
  then show ?case by simp
next
  case (Cons cmd cmds)
  obtain a1 s1 where p: "process_command env cmd a s = (a1, s1)"
    by (cases "process_command env cmd a s") auto
  with Cons.prems have "process_commands env cmds a1 s1 = (a', s')"
    by simp
  from Cons.IH [OF this] process_command_acknowledged [OF p] p show ?case
    by simp
qed

lemma addressed_when_processed_subseq:
  "subseq (addressed_when_processed env cmds a s) (map cmd_id cmds)"
proof (induction cmds arbitrary: a s)
  case Nil
  then show ?case by simp
next
  case (Cons cmd cmds)
  obtain a1 s1 where p: "process_command env cmd a s = (a1, s1)"
    by (cases "process_command env cmd a s") auto
  from Cons.IH [of a1 s1] p show ?case
    by (simp add: list_emb_Cons)
qed

text \<open>
  Claim C1 as amended.  A pending command is acknowledged exactly once when its
  \<^verbatim>\<open>instance_id\<close> equals the agent's \<^verbatim>\<open>instance_id\<close> at the moment it is processed,
  whether the switch succeeded or not; a command with another \<^verbatim>\<open>instance_id\<close> is
  skipped: the agent and the world stay as they are, and no acknowledgement is sent.
  Over the commands of one tick the acknowledged ids are exactly the ids of the
  commands addressed to the agent when they were processed, in the order received; a
  tick that is disabled or finds a switch in progress acknowledges nothing.
\<close>

theorem acknowledgement_of_commands:
  "acknowledged (trace (snd (process_command env cmd a s))) =
     acknowledged (trace s) @
     (if cmd_instance_id cmd = instance_id (config a) then [cmd_id cmd] else []) \<and>
   (cmd_instance_id cmd \<noteq> instance_id (config a) \<longrightarrow> process_command env cmd a s = (a, s)) \<and>
   acknowledged (trace (snd (process_commands env cmds a s))) =
     acknowledged (trace s) @ addressed_when_processed env cmds a s \<and>
   acknowledged (trace (snd (command_processor_tick env a s))) =
     acknowledged (trace s) @
     (if enabled (config a) \<and> auto_switch_enabled (config a) \<and> \<not> switching_in_progress a
      then addressed_when_processed env (fst (get_pending_commands env s)) a
             (snd (get_pending_commands env s))
      else []) \<and>
   subseq (addressed_when_processed env cmds a s) (map cmd_id cmds)"
proof -
  have one: "acknowledged (trace (snd (process_command env cmd a s))) =
     acknowledged (trace s) @
     (if cmd_instance_id cmd = instance_id (config a) then [cmd_id cmd] else [])"
    using process_command_acknowledged [of env cmd a s "fst (process_command env cmd a s)"
        "snd (process_command env cmd a s)"]
    by simp
  have two: "cmd_instance_id cmd \<noteq> instance_id (config a) \<longrightarrow>
               process_command env cmd a s = (a, s)"
    by (simp add: process_command_def)
  have three: "acknowledged (trace (snd (process_commands env cmds a s))) =
     acknowledged (trace s) @ addressed_when_processed env cmds a s" for cmds a s
    using process_commands_addressed [of env cmds a s "fst (process_commands env cmds a s)"
        "snd (process_commands env cmds a s)"]
    by simp
  have four: "acknowledged (trace (snd (command_processor_tick env a s))) =
     acknowledged (trace s) @
     (if enabled (config a) \<and> auto_switch_enabled (config a) \<and> \<not> switching_in_progress a
      then addressed_when_processed env (fst (get_pending_commands env s)) a
             (snd (get_pending_commands env s))
      else [])"
  proof (cases "enabled (config a) \<and> auto_switch_enabled (config a) \<and>
                \<not> switching_in_progress a")
    case False
    then have "command_processor_tick env a s = (a, s)"
      by (auto simp: command_processor_tick_def)
    with False show ?thesis by auto
  next
    case True
    obtain cmds s1 where g: "get_pending_commands env s = (cmds, s1)"
      by (cases "get_pending_commands env s") auto
    from True g have t: "command_processor_tick env a s = process_commands env cmds a s1"
      by (simp add: command_processor_tick_def)
    have "acknowledged (trace s1) = acknowledged (trace s)"
      using g by (auto simp: get_pending_commands_def trace_append dest!: perform_calls
                       split: prod.splits option.splits)
    with three [of cmds a s1] t g True show ?thesis
      by simp
  qed
  from one two three four addressed_when_processed_subseq show ?thesis by blast
qed

text \<open>
  The controller returns three commands: 9 for \<^verbatim>\<open>i-OLD\<close>, 7 for \<^verbatim>\<open>i-A\<close> and 10 for
  \<^verbatim>\<open>i-A\<close>.  The agent describes \<^verbatim>\<open>i-A\<close>.  Command 9 is skipped; command 7 switches the
  agent to \<^verbatim>\<open>i-B\<close> and is acknowledged; command 10 then no longer matches.  A command
  for another instance leaves the agent and the world untouched.
\<close>

theorem acknowledgement_of_commands_witness:
  "acknowledged (trace (snd (command_processor_tick
      (scenario_env\<lparr>http_pending_commands :=
         (\<lambda>w. (Some [\<lparr>cmd_id = 9, cmd_instance_id = ''i-OLD'',
                       cmd_target_mode = ''ondemand'', cmd_target_pool_id = None\<rparr>,
                      \<lparr>cmd_id = 7, cmd_instance_id = ''i-A'',
                       cmd_target_mode = ''ondemand'', cmd_target_pool_id = None\<rparr>,
                      \<lparr>cmd_id = 10, cmd_instance_id = ''i-A'',
                       cmd_target_mode = ''spot'', cmd_target_pool_id = None\<rparr>], w + 1))\<rparr>)
      scenario_agent scenario_sys))) = [7] \<and>
   process_command scenario_env
     \<lparr>cmd_id = 9, cmd_instance_id = ''i-OLD'', cmd_target_mode = ''ondemand'',
      cmd_target_pool_id = None\<rparr> scenario_agent scenario_sys = (scenario_agent, scenario_sys)"
proof -
  define env where
    "env = scenario_env\<lparr>http_pending_commands :=
         (\<lambda>w. (Some [\<lparr>cmd_id = 9, cmd_instance_id = ''i-OLD'',
                       cmd_target_mode = ''ondemand'', cmd_target_pool_id = None\<rparr>,
                      \<lparr>cmd_id = 7, cmd_instance_id = ''i-A'',
                       cmd_target_mode = ''ondemand'', cmd_target_pool_id = None\<rparr>,
                      \<lparr>cmd_id = 10, cmd_instance_id = ''i-A'',
                       cmd_target_mode = ''spot'', cmd_target_pool_id = None\<rparr>], w + 1))\<rparr>"
  define cmd where
    "cmd = \<lparr>cmd_id = 9, cmd_instance_id = ''i-OLD'', cmd_target_mode = ''ondemand'',
            cmd_target_pool_id = None\<rparr>"
  have ne: "cmd_instance_id cmd \<noteq> instance_id (config scenario_agent)"
    by (simp add: cmd_def scenario_defs)
  have on: "enabled (config scenario_agent) \<and> auto_switch_enabled (config scenario_agent) \<and>
            \<not> switching_in_progress scenario_agent"
    by (simp add: scenario_defs)
  have ids: "addressed_when_processed env (fst (get_pending_commands env scenario_sys))
               scenario_agent (snd (get_pending_commands env scenario_sys)) = [7]"
    unfolding env_def by (simp add: model_defs scenario_defs Let_def)
  have z: "acknowledged (trace scenario_sys) = []"
    by (simp add: scenario_sys_def)
  from acknowledgement_of_commands [of env cmd scenario_agent scenario_sys] on ids z
  have k1: "acknowledged (trace (snd (command_processor_tick env scenario_agent scenario_sys)))
              = [7]"
    by simp
  from acknowledgement_of_commands [of scenario_env cmd scenario_agent scenario_sys] ne
  have k2: "process_command scenario_env cmd scenario_agent scenario_sys =
              (scenario_agent, scenario_sys)"
    by blast
  from k1 k2 show ?thesis unfolding env_def cmd_def by simp
qed

subsection \<open>The identity after a successful switch\<close>

text \<open>
  What step 9 rebinds: after a successful \<^verbatim>\<open>execute_switch\<close> the agent carries the id
  that \<^verbatim>\<open>launch_instance\<close> returned, the type and zone of the successor as described in
  step 5, and the mode and pool that \<^verbatim>\<open>get_current_mode\<close> observed.  \<^verbatim>\<open>ami_id\<close> is not
  among the assignments of lines 917-921 and keeps its value.
\<close>

lemma successful_switch_rebinds:
  assumes "execute_switch env tm tp trig a s = (True, a', s')"
  shows "\<exists>cfg s3 s4 nid s6 nd s7 nm np s8.
           launch_instance env cfg tm tp s3 = (Some nid, s4) \<and>
           get_instance_details env nid s6 = (Some nd, s7) \<and>
           get_current_mode env nid s7 = ((nm, np), s8) \<and>
           instance_id (config a') = nid \<and>
           instance_type (config a') = det_instance_type nd \<and>
           availability_zone (config a') = det_az nd \<and>
           current_mode a' = Some nm \<and>
           current_pool_id a' = np \<and>
           ami_id (config a') = ami_id (config a)"
proof -
  define A where "A = a\<lparr>switching_in_progress := True\<rparr>"
  from execute_switch_success [OF assms] obtain b where
    st: "switch_steps env tm tp trig A s = (True, b, s')"
    and a': "a' = b\<lparr>switching_in_progress := False\<rparr>"
    unfolding A_def by blast
  from switch_steps_success [OF st]
  obtain details new_ami s3 nid s4 s6 nd s7 nm np s8 odp a1 s9
    where c4: "launch_instance env
                 (prepare_launch_config details new_ami (instance_id (config A)))
                 tm tp s3 = (Some nid, s4)"
      and c7: "get_instance_details env nid s6 = (Some nd, s7)"
      and c8: "get_current_mode env nid s7 = ((nm, np), s8)"
      and c9: "agent_get_ondemand_price env A s8 = (odp, a1, s9)"
      and b: "b = rebind a1 nid nd nm np"
    by metis
  have "config a1 = config A"
    using agent_get_ondemand_price_keeps(1) [OF c9] .
  then have "ami_id (config a') = ami_id (config a)"
    by (simp add: a' b rebind_fields A_def)
  moreover have "instance_id (config a') = nid"
    "instance_type (config a') = det_instance_type nd"
    "availability_zone (config a') = det_az nd"
    "current_mode a' = Some nm" "current_pool_id a' = np"
    by (simp_all add: a' b rebind_fields)
  ultimately show ?thesis using c4 c7 c8 by blast
qed

text \<open>
  Claim C2 at scenario 1 of the specification.  The switch from \<^verbatim>\<open>i-A\<close> (spot, image
  \<^verbatim>\<open>ami-0\<close>) to on-demand succeeds; the report names \<^verbatim>\<open>ami-1\<close> as the image of the new
  instance \<^verbatim>\<open>i-B\<close>; the agent ends with the identity
  \<^verbatim>\<open>(i-B, m5.large, ap-south-1a, ami-0, ondemand, None)\<close>: every field is the
  successor's but \<^verbatim>\<open>ami_id\<close>, which still names the image of the old instance.
\<close>

theorem scenario_1_final_identity:
  "fst (execute_switch scenario_env ''ondemand'' None ''manual'' scenario_agent scenario_sys)
     = True \<and>
   map (\<lambda>r. (snap_instance_id (mr_new_instance r), snap_ami_id (mr_new_instance r)))
     (reports (trace (snd (snd (execute_switch scenario_env ''ondemand'' None ''manual''
                                  scenario_agent scenario_sys)))))
     = [(''i-B'', ''ami-1'')] \<and>
   instance_id (config (fst (snd (execute_switch scenario_env ''ondemand'' None ''manual''
                                     scenario_agent scenario_sys)))) = ''i-B'' \<and>
   instance_type (config (fst (snd (execute_switch scenario_env ''ondemand'' None ''manual''
                                     scenario_agent scenario_sys)))) = ''m5.large'' \<and>
   availability_zone (config (fst (snd (execute_switch scenario_env ''ondemand'' None
                                     ''manual'' scenario_agent scenario_sys)))) = ''ap-south-1a'' \<and>
   ami_id (config (fst (snd (execute_switch scenario_env ''ondemand'' None ''manual''
                                     scenario_agent scenario_sys)))) = ''ami-0'' \<and>
   current_mode (fst (snd (execute_switch scenario_env ''ondemand'' None ''manual''
                                     scenario_agent scenario_sys))) = Some ''ondemand'' \<and>
   current_pool_id (fst (snd (execute_switch scenario_env ''ondemand'' None ''manual''
                                     scenario_agent scenario_sys))) = None"
  by (simp add: model_defs scenario_defs Let_def)

subsection \<open>The fixed-price accessor\<close>

lemma cached_ondemand_price_fresh:
  assumes "last_ondemand_price a = Some p" and "p \<noteq> 0"
    and "last_ondemand_fetch a = Some f"
    and "clock env s - f < ondemand_price_interval (config a) * 1000000"
  shows "cached_ondemand_price env a s = (Some p, snd (now env s))"
  using assms
  by (auto simp: cached_ondemand_price_def now_def clock_def split: prod.splits)

lemma agent_get_ondemand_price_nonzero:
  assumes "last_ondemand_price a \<noteq> Some 0"
  shows "last_ondemand_price (fst (snd (agent_get_ondemand_price env a s))) \<noteq> Some 0"
  using assms
  by (auto simp: agent_get_ondemand_price_def split: prod.splits option.splits if_splits)

lemma get_ondemand_price_request:
  "\<exists>l. trace (snd (get_ondemand_price env rg it s)) = trace s @ [GetProducts it l]"
  using get_ondemand_price_calls [of env rg it s "fst (get_ondemand_price env rg it s)"
      "snd (get_ondemand_price env rg it s)"]
  by simp

lemma cached_ondemand_price_stale:
  assumes "last_ondemand_price a = Some p" and "p \<noteq> 0"
    and "last_ondemand_fetch a = Some f"
    and "ondemand_price_interval (config a) * 1000000 \<le> clock env s - f"
  shows "cached_ondemand_price env a s = (None, snd (now env s))"
  using assms
  by (auto simp: cached_ondemand_price_def now_def clock_def split: prod.splits)

lemma cached_ondemand_price_absent:
  assumes "last_ondemand_price a = None \<or> last_ondemand_fetch a = None"
  shows "cached_ondemand_price env a s = (None, s)"
  using assms
  by (auto simp: cached_ondemand_price_def split: option.splits)

text \<open>What the accessor does once the cache was not returned and the fetch starts in
  state \<open>s0\<close> (lines 947-952).\<close>

lemma agent_get_ondemand_price_fetch:
  assumes "cached_ondemand_price env a s = (None, s0)"
  shows "(\<exists>l. trace (snd (snd (agent_get_ondemand_price env a s))) =
               trace s0 @ [GetProducts (instance_type (config a)) l])"
    and "fst (get_ondemand_price env (region (config a)) (instance_type (config a)) s0) = Some q
         \<Longrightarrow> q \<noteq> 0 \<Longrightarrow>
         fst (agent_get_ondemand_price env a s) = q \<and>
         last_ondemand_price (fst (snd (agent_get_ondemand_price env a s))) = Some q"
    and "fst (get_ondemand_price env (region (config a)) (instance_type (config a)) s0) = None
         \<Longrightarrow> fst (agent_get_ondemand_price env a s) =
             (case last_ondemand_price a of
                Some p \<Rightarrow> if p \<noteq> 0 then p else 1 / 10
              | None \<Rightarrow> 1 / 10)"
proof -
  obtain r s1 where g:
    "get_ondemand_price env (region (config a)) (instance_type (config a)) s0 = (r, s1)"
    by (cases "get_ondemand_price env (region (config a)) (instance_type (config a)) s0") auto
  from get_ondemand_price_request [of env "region (config a)" "instance_type (config a)" s0] g
  obtain l where l: "trace s1 = trace s0 @ [GetProducts (instance_type (config a)) l]"
    by auto
  have "trace (snd (snd (agent_get_ondemand_price env a s))) = trace s1"
    using assms g
    by (auto simp: agent_get_ondemand_price_def dest: now_calls
             split: prod.splits option.splits)
  with l show "\<exists>l. trace (snd (snd (agent_get_ondemand_price env a s))) =
               trace s0 @ [GetProducts (instance_type (config a)) l]"
    by auto
  show "fst (get_ondemand_price env (region (config a)) (instance_type (config a)) s0) = Some q
         \<Longrightarrow> q \<noteq> 0 \<Longrightarrow>
         fst (agent_get_ondemand_price env a s) = q \<and>
         last_ondemand_price (fst (snd (agent_get_ondemand_price env a s))) = Some q"
    using assms
    by (auto simp: agent_get_ondemand_price_def split: prod.splits option.splits)
  show "fst (get_ondemand_price env (region (config a)) (instance_type (config a)) s0) = None
         \<Longrightarrow> fst (agent_get_ondemand_price env a s) =
             (case last_ondemand_price a of
                Some p \<Rightarrow> if p \<noteq> 0 then p else 1 / 10
              | None \<Rightarrow> 1 / 10)"
    using assms
    by (auto simp: agent_get_ondemand_price_def split: prod.splits option.splits)
qed

text \<open>
  Claim C10.  \<^verbatim>\<open>_get_ondemand_price\<close> always returns a price.

  \<^item> With a cached price younger than \<^verbatim>\<open>ondemand_price_interval\<close> seconds it returns the
    cache, leaves the agent as it is and sends no request.
  \<^item> With a cached price that is \<^verbatim>\<open>ondemand_price_interval\<close> seconds old or older it
    sends the catalogue request; a fetched price is returned and stored, and when the
    fetch fails the old price is returned.
  \<^item> With nothing cached it sends the catalogue request; a fetched price is returned
    and stored, and when the fetch fails it returns the placeholder 0.1.
  \<^item> The cache never holds 0.0 (only truthy prices are stored), so a cached price is
    always a truthy one.
  \<^item> In the world of scenario 1 with the price catalogue failing, the switch report
    carries 0.1 as the on-demand price.
\<close>

theorem fixed_price_accessor:
  "(last_ondemand_price a = Some p \<and> p \<noteq> 0 \<and> last_ondemand_fetch a = Some f \<and>
      clock env s - f < ondemand_price_interval (config a) * 1000000 \<longrightarrow>
      agent_get_ondemand_price env a s = (p, a, snd (now env s)) \<and>
      trace (snd (now env s)) = trace s) \<and>
   (last_ondemand_price a = Some p \<and> p \<noteq> 0 \<and> last_ondemand_fetch a = Some f \<and>
      ondemand_price_interval (config a) * 1000000 \<le> clock env s - f \<longrightarrow>
      (\<exists>l. trace (snd (snd (agent_get_ondemand_price env a s))) =
             trace s @ [GetProducts (instance_type (config a)) l]) \<and>
      (fst (get_ondemand_price env (region (config a)) (instance_type (config a))
              (snd (now env s))) = Some q \<and> q \<noteq> 0 \<longrightarrow>
         fst (agent_get_ondemand_price env a s) = q \<and>
         last_ondemand_price (fst (snd (agent_get_ondemand_price env a s))) = Some q) \<and>
      (fst (get_ondemand_price env (region (config a)) (instance_type (config a))
              (snd (now env s))) = None \<longrightarrow>
         fst (agent_get_ondemand_price env a s) = p)) \<and>
   (last_ondemand_price a = None \<or> last_ondemand_fetch a = None \<longrightarrow>
      (\<exists>l. trace (snd (snd (agent_get_ondemand_price env a s))) =
             trace s @ [GetProducts (instance_type (config a)) l]) \<and>
      (fst (get_ondemand_price env (region (config a)) (instance_type (config a)) s)
           = Some q \<and> q \<noteq> 0 \<longrightarrow>
         fst (agent_get_ondemand_price env a s) = q \<and>
         last_ondemand_price (fst (snd (agent_get_ondemand_price env a s))) = Some q) \<and>
      (fst (get_ondemand_price env (region (config a)) (instance_type (config a)) s) = None \<and>
       last_ondemand_price a = None \<longrightarrow>
         fst (agent_get_ondemand_price env a s) = 1 / 10)) \<and>
   (last_ondemand_price a \<noteq> Some 0 \<longrightarrow>
      last_ondemand_price (fst (snd (agent_get_ondemand_price env a s))) \<noteq> Some 0) \<and>
   map mr_on_demand
     (reports (trace (snd (snd (execute_switch
        (scenario_env\<lparr>pricing_get_products := (\<lambda>i l w. (None, w + 1))\<rparr>)
        ''ondemand'' None ''manual'' scenario_agent scenario_sys))))) = [1 / 10]"
proof -
  have tn: "trace (snd (now env s)) = trace s"
    using now_calls [of env s "fst (now env s)" "snd (now env s)"] by simp
  have one: "last_ondemand_price a = Some p \<and> p \<noteq> 0 \<and> last_ondemand_fetch a = Some f \<and>
      clock env s - f < ondemand_price_interval (config a) * 1000000 \<longrightarrow>
      agent_get_ondemand_price env a s = (p, a, snd (now env s)) \<and>
      trace (snd (now env s)) = trace s"
    using tn by (auto simp: agent_get_ondemand_price_def cached_ondemand_price_fresh)
  have two: "last_ondemand_price a = Some p \<and> p \<noteq> 0 \<and> last_ondemand_fetch a = Some f \<and>
      ondemand_price_interval (config a) * 1000000 \<le> clock env s - f \<longrightarrow>
      (\<exists>l. trace (snd (snd (agent_get_ondemand_price env a s))) =
             trace s @ [GetProducts (instance_type (config a)) l]) \<and>
      (fst (get_ondemand_price env (region (config a)) (instance_type (config a))
              (snd (now env s))) = Some q \<and> q \<noteq> 0 \<longrightarrow>
         fst (agent_get_ondemand_price env a s) = q \<and>
         last_ondemand_price (fst (snd (agent_get_ondemand_price env a s))) = Some q) \<and>
      (fst (get_ondemand_price env (region (config a)) (instance_type (config a))
              (snd (now env s))) = None \<longrightarrow>
         fst (agent_get_ondemand_price env a s) = p)"
  proof
    assume h: "last_ondemand_price a = Some p \<and> p \<noteq> 0 \<and> last_ondemand_fetch a = Some f \<and>
      ondemand_price_interval (config a) * 1000000 \<le> clock env s - f"
    then have c: "cached_ondemand_price env a s = (None, snd (now env s))"
      using cached_ondemand_price_stale by blast
    from agent_get_ondemand_price_fetch(1) [OF c] agent_get_ondemand_price_fetch(2) [OF c, of q]
      agent_get_ondemand_price_fetch(3) [OF c] h tn
    show "(\<exists>l. trace (snd (snd (agent_get_ondemand_price env a s))) =
             trace s @ [GetProducts (instance_type (config a)) l]) \<and>
      (fst (get_ondemand_price env (region (config a)) (instance_type (config a))
              (snd (now env s))) = Some q \<and> q \<noteq> 0 \<longrightarrow>
         fst (agent_get_ondemand_price env a s) = q \<and>
         last_ondemand_price (fst (snd (agent_get_ondemand_price env a s))) = Some q) \<and>
      (fst (get_ondemand_price env (region (config a)) (instance_type (config a))
              (snd (now env s))) = None \<longrightarrow>
         fst (agent_get_ondemand_price env a s) = p)"
      by simp
  qed
  have three: "last_ondemand_price a = None \<or> last_ondemand_fetch a = None \<longrightarrow>
      (\<exists>l. trace (snd (snd (agent_get_ondemand_price env a s))) =
             trace s @ [GetProducts (instance_type (config a)) l]) \<and>
      (fst (get_ondemand_price env (region (config a)) (instance_type (config a)) s)
           = Some q \<and> q \<noteq> 0 \<longrightarrow>
         fst (agent_get_ondemand_price env a s) = q \<and>
         last_ondemand_price (fst (snd (agent_get_ondemand_price env a s))) = Some q) \<and>
      (fst (get_ondemand_price env (region (config a)) (instance_type (config a)) s) = None \<and>
       last_ondemand_price a = None \<longrightarrow>
         fst (agent_get_ondemand_price env a s) = 1 / 10)"
  proof
    assume h: "last_ondemand_price a = None \<or> last_ondemand_fetch a = None"
    then have c: "cached_ondemand_price env a s = (None, s)"
      by (rule cached_ondemand_price_absent)
    from agent_get_ondemand_price_fetch(1) [OF c] agent_get_ondemand_price_fetch(2) [OF c, of q]
      agent_get_ondemand_price_fetch(3) [OF c]
    show "(\<exists>l. trace (snd (snd (agent_get_ondemand_price env a s))) =
             trace s @ [GetProducts (instance_type (config a)) l]) \<and>
      (fst (get_ondemand_price env (region (config a)) (instance_type (config a)) s)
           = Some q \<and> q \<noteq> 0 \<longrightarrow>
         fst (agent_get_ondemand_price env a s) = q \<and>
         last_ondemand_price (fst (snd (agent_get_ondemand_price env a s))) = Some q) \<and>
      (fst (get_ondemand_price env (region (config a)) (instance_type (config a)) s) = None \<and>
       last_ondemand_price a = None \<longrightarrow>
         fst (agent_get_ondemand_price env a s) = 1 / 10)"
      by simp
  qed
  have four: "last_ondemand_price a \<noteq> Some 0 \<longrightarrow>
      last_ondemand_price (fst (snd (agent_get_ondemand_price env a s))) \<noteq> Some 0"
    using agent_get_ondemand_price_nonzero by blast
  have five: "map mr_on_demand
     (reports (trace (snd (snd (execute_switch
        (scenario_env\<lparr>pricing_get_products := (\<lambda>i l w. (None, w + 1))\<rparr>)
        ''ondemand'' None ''manual'' scenario_agent scenario_sys))))) = [1 / 10]"
    by (simp add: model_defs scenario_defs Let_def)
  from one two three four five show ?thesis by blast
qed

text \<open>
  In the world of scenario 1 (interval 3600 s, catalogue price 0.096): a cache of 0.05
  filled at time 0 and read at time 0 is returned as it is; the same cache read at
  time 3600 s is refetched and 0.096 is returned; without a cache and with the
  catalogue failing the accessor returns 0.1.
\<close>

theorem fixed_price_accessor_witness:
  "agent_get_ondemand_price scenario_env
     (scenario_agent\<lparr>last_ondemand_price := Some (5 / 100), last_ondemand_fetch := Some 0\<rparr>)
     scenario_sys =
     (5 / 100,
      scenario_agent\<lparr>last_ondemand_price := Some (5 / 100), last_ondemand_fetch := Some 0\<rparr>,
      snd (now scenario_env scenario_sys)) \<and>
   fst (agent_get_ondemand_price scenario_env
     (scenario_agent\<lparr>last_ondemand_price := Some (5 / 100), last_ondemand_fetch := Some 0\<rparr>)
     \<lparr>world = 3600000000, trace = []\<rparr>) = 96 / 1000 \<and>
   fst (agent_get_ondemand_price
          (scenario_env\<lparr>pricing_get_products := (\<lambda>i l w. (None, w + 1))\<rparr>)
          scenario_agent scenario_sys) = 1 / 10"
proof -
  define a where
    "a = scenario_agent\<lparr>last_ondemand_price := Some (5 / 100), last_ondemand_fetch := Some 0\<rparr>"
  define late :: "int sys" where "late = \<lparr>world = 3600000000, trace = []\<rparr>"
  define env where
    "env = scenario_env\<lparr>pricing_get_products := (\<lambda>i l w. (None, w + 1))\<rparr>"
  have h1: "last_ondemand_price a = Some (5 / 100) \<and> (5 / 100 :: real) \<noteq> 0 \<and>
            last_ondemand_fetch a = Some 0 \<and>
            clock scenario_env scenario_sys - 0 < ondemand_price_interval (config a) * 1000000"
    by (simp add: a_def clock_def scenario_defs)
  have k1: "agent_get_ondemand_price scenario_env a scenario_sys =
              (5 / 100, a, snd (now scenario_env scenario_sys))"
    using fixed_price_accessor [of a "5 / 100" 0 scenario_env scenario_sys] h1 by blast
  have h2: "last_ondemand_price a = Some (5 / 100) \<and> (5 / 100 :: real) \<noteq> 0 \<and>
            last_ondemand_fetch a = Some 0 \<and>
            ondemand_price_interval (config a) * 1000000 \<le> clock scenario_env late - 0"
    by (simp add: a_def late_def clock_def scenario_defs)
  have g2: "fst (get_ondemand_price scenario_env (region (config a)) (instance_type (config a))
                   (snd (now scenario_env late))) = Some (96 / 1000) \<and> (96 / 1000 :: real) \<noteq> 0"
    by (simp add: a_def late_def get_ondemand_price_def perform_def now_def region_map_def
          scenario_defs)
  have k2: "fst (agent_get_ondemand_price scenario_env a late) = 96 / 1000"
    using fixed_price_accessor [of a "5 / 100" 0 scenario_env late "96 / 1000"] h2 g2 by blast
  have h3: "last_ondemand_price scenario_agent = None"
    by (simp add: scenario_defs)
  have g3: "fst (get_ondemand_price env (region (config scenario_agent))
                   (instance_type (config scenario_agent)) scenario_sys) = None"
    by (simp add: env_def get_ondemand_price_def perform_def region_map_def scenario_defs)
  have k3: "fst (agent_get_ondemand_price env scenario_agent scenario_sys) = 1 / 10"
    using fixed_price_accessor [of scenario_agent _ _ env scenario_sys] h3 g3 by blast
  from k1 k2 k3 show ?thesis
    unfolding a_def env_def late_def by simp
qed

subsection \<open>Mutual exclusion of \<^verbatim>\<open>execute_switch\<close>\<close>

lemma initial_shared_inv: "protocol_inv initial_shared"
  by (simp add: protocol_inv_def initial_shared_def holds_lock_def flag_owner_def
        migrating_def)

lemma ex_fun_upd:
  "(\<exists>u. P ((f(t := p)) u)) = (P p \<or> (\<exists>u. u \<noteq> t \<and> P (f u)))"
proof
  assume "\<exists>u. P ((f(t := p)) u)"
  then obtain u where u: "P ((f(t := p)) u)" ..
  show "P p \<or> (\<exists>u. u \<noteq> t \<and> P (f u))"
  proof (cases "u = t")
    case True
    with u show ?thesis by simp
  next
    case False
    with u have "u \<noteq> t \<and> P (f u)" by simp
    then show ?thesis by blast
  qed
next
  assume "P p \<or> (\<exists>u. u \<noteq> t \<and> P (f u))"
  then show "\<exists>u. P ((f(t := p)) u)"
  proof
    assume "P p"
    then have "P ((f(t := p)) t)" by simp
    then show ?thesis ..
  next
    assume "\<exists>u. u \<noteq> t \<and> P (f u)"
    then obtain u where "u \<noteq> t" "P (f u)" by blast
    then have "P ((f(t := p)) u)" by simp
    then show ?thesis ..
  qed
qed

text \<open>The invariant after thread \<open>t\<close> has moved to \<open>p\<close>, in terms of the other threads.\<close>

lemma protocol_inv_update:
  assumes c': "switch_lock c' = lk" "in_progress c' = fl" "pcs c' = (pcs c)(t := p)"
    and L: "\<And>u. u \<noteq> t \<Longrightarrow> holds_lock (pcs c u) \<Longrightarrow> lk = Some u"
    and Lt: "holds_lock p \<Longrightarrow> lk = Some t"
    and F: "fl = (flag_owner p \<or> (\<exists>u. u \<noteq> t \<and> flag_owner (pcs c u)))"
    and M: "\<And>u v. u \<noteq> t \<Longrightarrow> v \<noteq> t \<Longrightarrow> migrating (pcs c u) \<Longrightarrow> migrating (pcs c v)
                \<Longrightarrow> u = v"
    and Mt: "\<And>u. u \<noteq> t \<Longrightarrow> migrating p \<Longrightarrow> \<not> migrating (pcs c u)"
  shows "protocol_inv c'"
proof -
  have a: "\<forall>u. holds_lock (pcs c' u) \<longrightarrow> switch_lock c' = Some u"
    using L Lt by (simp add: c')
  have b: "in_progress c' = (\<exists>u. flag_owner (pcs c' u))"
    by (simp only: c' F ex_fun_upd)
  have m: "u = v" if "migrating (pcs c' u)" and "migrating (pcs c' v)" for u v
  proof (cases "u = t")
    case True
    show ?thesis
    proof (cases "v = t")
      case True
      with \<open>u = t\<close> show ?thesis by simp
    next
      case False
      with that(2) have "migrating (pcs c v)" by (simp add: c')
      moreover from that(1) True have "migrating p" by (simp add: c')
      ultimately show ?thesis using Mt [OF False] by simp
    qed
  next
    case False
    with that(1) have mu: "migrating (pcs c u)" by (simp add: c')
    show ?thesis
    proof (cases "v = t")
      case True
      with that(2) have "migrating p" by (simp add: c')
      with mu Mt [OF False] show ?thesis by simp
    next
      case False
      with that(2) have "migrating (pcs c v)" by (simp add: c')
      with mu M [OF \<open>u \<noteq> t\<close> False] show ?thesis by simp
    qed
  qed
  from a b m show ?thesis
    unfolding protocol_inv_def by blast
qed

lemma thread_step_inv:
  assumes "protocol_inv c" and "thread_step t c = Some c'"
  shows "protocol_inv c'"
proof -
  from assms(1) have
    L: "\<And>u. holds_lock (pcs c u) \<Longrightarrow> switch_lock c = Some u"
    and F: "in_progress c = (\<exists>u. flag_owner (pcs c u))"
    and M: "\<And>u v. migrating (pcs c u) \<Longrightarrow> migrating (pcs c v) \<Longrightarrow> u = v"
    unfolding protocol_inv_def by blast+
  have owner_migrating: "migrating q" if "flag_owner q" for q
    using that by (auto simp: flag_owner_def migrating_def)
  \<comment> \<open>when \<open>t\<close> does not own the flag, the flag is owned by another thread or by none\<close>
  have F_other: "in_progress c = (\<exists>u. u \<noteq> t \<and> flag_owner (pcs c u))"
    if nt: "\<not> flag_owner (pcs c t)"
  proof -
    have "(\<exists>u. flag_owner (pcs c u)) = (\<exists>u. u \<noteq> t \<and> flag_owner (pcs c u))"
    proof
      assume "\<exists>u. flag_owner (pcs c u)"
      then obtain u where u: "flag_owner (pcs c u)" ..
      with nt have "u \<noteq> t" by auto
      with u show "\<exists>u. u \<noteq> t \<and> flag_owner (pcs c u)" by blast
    next
      assume "\<exists>u. u \<noteq> t \<and> flag_owner (pcs c u)"
      then show "\<exists>u. flag_owner (pcs c u)" by blast
    qed
    with F show ?thesis by simp
  qed
  \<comment> \<open>when \<open>t\<close> is past the test, no other thread is\<close>
  have alone: "\<not> migrating (pcs c u)" if "migrating (pcs c t)" and "u \<noteq> t" for u
    using M [of u t] that by blast
  have no_other_owner: "\<not> (\<exists>u. u \<noteq> t \<and> flag_owner (pcs c u))" if "migrating (pcs c t)"
    using alone [OF that] owner_migrating by blast
  \<comment> \<open>when \<open>t\<close> holds the lock, no other thread does\<close>
  have sole_holder: "\<not> holds_lock (pcs c u)" if "holds_lock (pcs c t)" and "u \<noteq> t" for u
  proof
    assume "holds_lock (pcs c u)"
    then have "switch_lock c = Some u" by (rule L)
    moreover have "switch_lock c = Some t" using that(1) by (rule L)
    ultimately show False using that(2) by simp
  qed
  show ?thesis
  proof (cases "pcs c t")
    case Idle
    with assms(2) have c': "switch_lock c' = switch_lock c" "in_progress c' = in_progress c"
      "pcs c' = (pcs c)(t := Acquire)"
      by (auto simp: thread_step_def)
    show ?thesis
    proof (rule protocol_inv_update [OF c'])
      show "in_progress c = (flag_owner Acquire \<or> (\<exists>u. u \<noteq> t \<and> flag_owner (pcs c u)))"
        using F_other Idle by (simp add: flag_owner_def)
      show "holds_lock Acquire \<Longrightarrow> switch_lock c = Some t"
        by (simp add: holds_lock_def)
      show "\<And>u. u \<noteq> t \<Longrightarrow> migrating Acquire \<Longrightarrow> \<not> migrating (pcs c u)"
        by (simp add: migrating_def)
    qed (use L M in blast)+
  next
    case Acquire
    with assms(2) have free: "switch_lock c = None"
      and c': "switch_lock c' = Some t" "in_progress c' = in_progress c"
        "pcs c' = (pcs c)(t := Test)"
      by (auto simp: thread_step_def split: if_splits)
    have nobody: "\<not> holds_lock (pcs c u)" for u
      using L [of u] free by auto
    show ?thesis
    proof (rule protocol_inv_update [OF c'])
      show "in_progress c = (flag_owner Test \<or> (\<exists>u. u \<noteq> t \<and> flag_owner (pcs c u)))"
        using F_other Acquire by (simp add: flag_owner_def)
      show "\<And>u. u \<noteq> t \<Longrightarrow> holds_lock (pcs c u) \<Longrightarrow> Some t = Some u"
        using nobody by simp
      show "holds_lock Test \<Longrightarrow> Some t = Some t"
        by simp
      show "\<And>u. u \<noteq> t \<Longrightarrow> migrating Test \<Longrightarrow> \<not> migrating (pcs c u)"
        by (simp add: migrating_def)
    qed (use M in blast)
  next
    case Test
    then have h: "holds_lock (pcs c t)"
      by (simp add: holds_lock_def)
    show ?thesis
    proof (cases "in_progress c")
      case True
      with assms(2) Test have c': "switch_lock c' = switch_lock c"
        "in_progress c' = in_progress c" "pcs c' = (pcs c)(t := ReturnBusy)"
        by (auto simp: thread_step_def)
      show ?thesis
      proof (rule protocol_inv_update [OF c'])
        show "in_progress c = (flag_owner ReturnBusy \<or> (\<exists>u. u \<noteq> t \<and> flag_owner (pcs c u)))"
          using F_other Test by (simp add: flag_owner_def)
        show "holds_lock ReturnBusy \<Longrightarrow> switch_lock c = Some t"
          using L [OF h] by simp
        show "\<And>u. u \<noteq> t \<Longrightarrow> migrating ReturnBusy \<Longrightarrow> \<not> migrating (pcs c u)"
          by (simp add: migrating_def)
      qed (use L M in blast)+
    next
      case False
      with assms(2) Test have c': "switch_lock c' = switch_lock c"
        "in_progress c' = in_progress c" "pcs c' = (pcs c)(t := SetFlag)"
        by (auto simp: thread_step_def)
      from False F have nobody: "\<not> flag_owner (pcs c u)" for u
        by blast
      have no_migrating: "\<not> migrating (pcs c u)" if "u \<noteq> t" for u
      proof
        assume "migrating (pcs c u)"
        then have "pcs c u = SetFlag"
          using nobody [of u] by (auto simp: migrating_def flag_owner_def)
        then have "holds_lock (pcs c u)"
          by (simp add: holds_lock_def)
        with sole_holder [OF h that] show False by simp
      qed
      show ?thesis
      proof (rule protocol_inv_update [OF c'])
        show "in_progress c = (flag_owner SetFlag \<or> (\<exists>u. u \<noteq> t \<and> flag_owner (pcs c u)))"
          using False nobody by (simp add: flag_owner_def)
        show "holds_lock SetFlag \<Longrightarrow> switch_lock c = Some t"
          using L [OF h] by simp
        show "\<And>u. u \<noteq> t \<Longrightarrow> migrating SetFlag \<Longrightarrow> \<not> migrating (pcs c u)"
          using no_migrating by simp
        show "\<And>u v. u \<noteq> t \<Longrightarrow> v \<noteq> t \<Longrightarrow> migrating (pcs c u) \<Longrightarrow> migrating (pcs c v)
                \<Longrightarrow> u = v"
          using M by blast
      qed (use L in blast)
    qed
  next
    case ReturnBusy
    with assms(2) have c': "switch_lock c' = None" "in_progress c' = in_progress c"
      "pcs c' = (pcs c)(t := Idle)"
      by (auto simp: thread_step_def)
    from ReturnBusy have h: "holds_lock (pcs c t)"
      by (simp add: holds_lock_def)
    show ?thesis
    proof (rule protocol_inv_update [OF c'])
      show "in_progress c = (flag_owner Idle \<or> (\<exists>u. u \<noteq> t \<and> flag_owner (pcs c u)))"
        using F_other ReturnBusy by (simp add: flag_owner_def)
      show "\<And>u. u \<noteq> t \<Longrightarrow> holds_lock (pcs c u) \<Longrightarrow> None = Some u"
        using sole_holder [OF h] by simp
      show "holds_lock Idle \<Longrightarrow> None = Some t"
        by (simp add: holds_lock_def)
      show "\<And>u. u \<noteq> t \<Longrightarrow> migrating Idle \<Longrightarrow> \<not> migrating (pcs c u)"
        by (simp add: migrating_def)
    qed (use M in blast)
  next
    case SetFlag
    with assms(2) have c': "switch_lock c' = switch_lock c" "in_progress c' = True"
      "pcs c' = (pcs c)(t := Release)"
      by (auto simp: thread_step_def)
    from SetFlag have h: "holds_lock (pcs c t)" and mig: "migrating (pcs c t)"
      by (simp_all add: holds_lock_def migrating_def)
    show ?thesis
    proof (rule protocol_inv_update [OF c'])
      show "True = (flag_owner Release \<or> (\<exists>u. u \<noteq> t \<and> flag_owner (pcs c u)))"
        by (simp add: flag_owner_def)
      show "holds_lock Release \<Longrightarrow> switch_lock c = Some t"
        using L [OF h] by simp
      show "\<And>u. u \<noteq> t \<Longrightarrow> migrating Release \<Longrightarrow> \<not> migrating (pcs c u)"
        using alone [OF mig] by simp
    qed (use L M in blast)+
  next
    case Release
    with assms(2) have c': "switch_lock c' = None" "in_progress c' = in_progress c"
      "pcs c' = (pcs c)(t := Body)"
      by (auto simp: thread_step_def)
    from Release have h: "holds_lock (pcs c t)" and mig: "migrating (pcs c t)"
      and own: "flag_owner (pcs c t)"
      by (simp_all add: holds_lock_def migrating_def flag_owner_def)
    from own F have fl: "in_progress c"
      by blast
    show ?thesis
    proof (rule protocol_inv_update [OF c'])
      show "in_progress c = (flag_owner Body \<or> (\<exists>u. u \<noteq> t \<and> flag_owner (pcs c u)))"
        using fl by (simp add: flag_owner_def)
      show "\<And>u. u \<noteq> t \<Longrightarrow> holds_lock (pcs c u) \<Longrightarrow> None = Some u"
        using sole_holder [OF h] by simp
      show "holds_lock Body \<Longrightarrow> None = Some t"
        by (simp add: holds_lock_def)
      show "\<And>u. u \<noteq> t \<Longrightarrow> migrating Body \<Longrightarrow> \<not> migrating (pcs c u)"
        using alone [OF mig] by simp
    qed (use M in blast)
  next
    case Body
    with assms(2) have c': "switch_lock c' = switch_lock c" "in_progress c' = in_progress c"
      "pcs c' = (pcs c)(t := Finally)"
      by (auto simp: thread_step_def)
    from Body have mig: "migrating (pcs c t)" and own: "flag_owner (pcs c t)"
      by (simp_all add: migrating_def flag_owner_def)
    from own F have fl: "in_progress c"
      by blast
    show ?thesis
    proof (rule protocol_inv_update [OF c'])
      show "in_progress c = (flag_owner Finally \<or> (\<exists>u. u \<noteq> t \<and> flag_owner (pcs c u)))"
        using fl by (simp add: flag_owner_def)
      show "holds_lock Finally \<Longrightarrow> switch_lock c = Some t"
        by (simp add: holds_lock_def)
      show "\<And>u. u \<noteq> t \<Longrightarrow> migrating Finally \<Longrightarrow> \<not> migrating (pcs c u)"
        using alone [OF mig] by simp
    qed (use L M in blast)+
  next
    case Finally
    with assms(2) have c': "switch_lock c' = switch_lock c" "in_progress c' = False"
      "pcs c' = (pcs c)(t := Idle)"
      by (auto simp: thread_step_def)
    from Finally have mig: "migrating (pcs c t)"
      by (simp add: migrating_def)
    show ?thesis
    proof (rule protocol_inv_update [OF c'])
      show "False = (flag_owner Idle \<or> (\<exists>u. u \<noteq> t \<and> flag_owner (pcs c u)))"
        using no_other_owner [OF mig] by (simp add: flag_owner_def)
      show "holds_lock Idle \<Longrightarrow> switch_lock c = Some t"
        by (simp add: holds_lock_def)
      show "\<And>u. u \<noteq> t \<Longrightarrow> migrating Idle \<Longrightarrow> \<not> migrating (pcs c u)"
        by (simp add: migrating_def)
    qed (use L M in blast)+
  qed
qed

lemma run_schedule_inv:
  assumes "protocol_inv c" and "run_schedule sched c = Some c'"
  shows "protocol_inv c'"
  using assms
proof (induction sched arbitrary: c)
  case Nil
  then show ?case by simp
next
  case (Cons t ts)
  from Cons.prems(2) obtain c1 where
    s: "thread_step t c = Some c1" and r: "run_schedule ts c1 = Some c'"
    by (auto split: option.splits)
  from Cons.IH [OF thread_step_inv [OF Cons.prems(1) s] r] show ?case .
qed

text \<open>
  Claim C8.  In every state that the threads can reach from the initial one, at most
  one thread is past the test of \<^verbatim>\<open>switching_in_progress\<close> and has not yet cleared the
  flag: at most one invocation of the migration engine is running.  A thread that
  reaches the test while another one is in the \<^verbatim>\<open>try\<close> block goes to
  \<^verbatim>\<open>return False\<close>.  In the sequential model, \<^verbatim>\<open>execute_switch\<close> called with the flag
  set returns \<^verbatim>\<open>False\<close> and changes neither the agent nor the world, and a tick of the
  command processor with the flag set does nothing.
\<close>

theorem at_most_one_migration:
  "(run_schedule sched initial_shared = Some c \<and> migrating (pcs c t) \<and> migrating (pcs c u)
      \<longrightarrow> t = u) \<and>
   (run_schedule sched initial_shared = Some c \<and> pcs c u = Body \<and> pcs c t = Test
      \<longrightarrow> thread_step t c = Some (c\<lparr>pcs := (pcs c)(t := ReturnBusy)\<rparr>)) \<and>
   (switching_in_progress a \<longrightarrow> execute_switch env tm tp trig a s = (False, a, s)) \<and>
   (switching_in_progress a \<longrightarrow> command_processor_tick env a s = (a, s))"
proof -
  have inv: "protocol_inv c" if "run_schedule sched initial_shared = Some c"
    using run_schedule_inv [OF initial_shared_inv that] .
  have one: "run_schedule sched initial_shared = Some c \<and> migrating (pcs c t) \<and>
             migrating (pcs c u) \<longrightarrow> t = u"
    using inv unfolding protocol_inv_def by blast
  have two: "run_schedule sched initial_shared = Some c \<and> pcs c u = Body \<and> pcs c t = Test
      \<longrightarrow> thread_step t c = Some (c\<lparr>pcs := (pcs c)(t := ReturnBusy)\<rparr>)"
  proof
    assume h: "run_schedule sched initial_shared = Some c \<and> pcs c u = Body \<and> pcs c t = Test"
    then have "flag_owner (pcs c u)"
      by (simp add: flag_owner_def)
    with inv h have "in_progress c"
      unfolding protocol_inv_def by blast
    with h show "thread_step t c = Some (c\<lparr>pcs := (pcs c)(t := ReturnBusy)\<rparr>)"
      by (simp add: thread_step_def)
  qed
  have three: "switching_in_progress a \<longrightarrow> execute_switch env tm tp trig a s = (False, a, s)"
    by (simp add: execute_switch_def)
  have four: "switching_in_progress a \<longrightarrow> command_processor_tick env a s = (a, s)"
    by (simp add: command_processor_tick_def)
  from one two three four show ?thesis by blast
qed

text \<open>
  Thread 0 enters the \<^verbatim>\<open>try\<close> block (five steps) and thread 1 then reaches the test
  (two steps): its next step is \<^verbatim>\<open>return False\<close>.  An agent with the flag set neither
  switches nor drains commands.
\<close>

theorem at_most_one_migration_witness:
  "run_schedule [0, 0, 0, 0, 0, 1, 1] initial_shared =
     Some \<lparr>switch_lock = Some 1, in_progress = True, pcs = (\<lambda>_. Idle)(0 := Body, 1 := Test)\<rparr> \<and>
   thread_step 1
     \<lparr>switch_lock = Some 1, in_progress = True, pcs = (\<lambda>_. Idle)(0 := Body, 1 := Test)\<rparr> =
     Some \<lparr>switch_lock = Some 1, in_progress = True,
           pcs = (\<lambda>_. Idle)(0 := Body, 1 := ReturnBusy)\<rparr> \<and>
   execute_switch scenario_env ''ondemand'' None ''manual''
     (scenario_agent\<lparr>switching_in_progress := True\<rparr>) scenario_sys =
     (False, scenario_agent\<lparr>switching_in_progress := True\<rparr>, scenario_sys) \<and>
   command_processor_tick scenario_env (scenario_agent\<lparr>switching_in_progress := True\<rparr>)
     scenario_sys = (scenario_agent\<lparr>switching_in_progress := True\<rparr>, scenario_sys)"
proof -
  define c where
    "c = \<lparr>switch_lock = Some (1::nat), in_progress = True,
          pcs = (\<lambda>_. Idle)(0 := Body, 1 := Test)\<rparr>"
  define a where "a = scenario_agent\<lparr>switching_in_progress := True\<rparr>"
  have r: "run_schedule [0, 0, 0, 0, 0, 1, 1] initial_shared = Some c"
    by (simp add: thread_step_def initial_shared_def c_def fun_upd_twist)
  have h: "run_schedule [0, 0, 0, 0, 0, 1, 1] initial_shared = Some c \<and> pcs c 0 = Body \<and>
           pcs c 1 = Test"
    using r by (simp add: c_def)
  have busy: "switching_in_progress a"
    by (simp add: a_def)
  note inst = at_most_one_migration [of "[0, 0, 0, 0, 0, 1, 1]" c 1 0 a scenario_env
      "''ondemand''" None "''manual''" scenario_sys]
  from inst h have k2: "thread_step 1 c = Some (c\<lparr>pcs := (pcs c)(1 := ReturnBusy)\<rparr>)"
    by blast
  from inst busy have k3: "execute_switch scenario_env ''ondemand'' None ''manual'' a scenario_sys
                            = (False, a, scenario_sys)"
    and k4: "command_processor_tick scenario_env a scenario_sys = (a, scenario_sys)"
    by blast+
  have upd: "c\<lparr>pcs := (pcs c)(1 := ReturnBusy)\<rparr> =
             \<lparr>switch_lock = Some 1, in_progress = True,
              pcs = (\<lambda>_. Idle)(0 := Body, 1 := ReturnBusy)\<rparr>"
    by (simp add: c_def)
  from r k2 k3 k4 upd show ?thesis
    unfolding c_def a_def by simp
qed

end
